theory Spec2Isabelle
  imports Main
begin

section \<open>Data model of the signalling server (routes.ts, storage)\<close>

text \<open>
  Socket identifiers are strings handed out by the transport layer. Payloads of the
  relayed events are opaque to the server; they are kept as uninterpreted text.
  \<open>null\<close> is \<open>None\<close>.

  The argument of update-preferences comes from the client and is stored as it is. It is
  either \<open>null\<close> or \<open>undefined\<close> (\<open>None\<close>: reading a property of it throws a
  \<open>TypeError\<close>) or a value with the two fields \<open>gender\<close> and \<open>country\<close>. The fields
  are only ever compared with \<open>===\<close>; a field that is missing or not a string stands as
  a string of its own. The argument of report-user is destructured as
  \<open>{ reason, details }\<close> in the parameter list, which throws on \<open>null\<close> and
  \<open>undefined\<close>.
\<close>

type_synonym socket_id = string
type_synonym payload = string

record preferences =
  pref_gender :: string
  pref_country :: string

text \<open>One entry of \<open>activeUsers\<close>: \<open>{ id, gender, preferences, currentPeer }\<close>.\<close>

record user =
  user_id :: socket_id
  gender :: string
  preferences :: "preferences option"
  currentPeer :: "socket_id option"

text \<open>
  \<open>waitingUsers\<close>: three JavaScript \<open>Set\<close>s. A \<open>Set\<close> iterates in insertion order and
  holds no element twice, so each is a list; \<open>set_add\<close> and \<open>set_delete\<close> are
  \<open>Set.prototype.add\<close> and \<open>Set.prototype.delete\<close>.
\<close>

record waiting =
  male :: "socket_id list"
  female :: "socket_id list"
  both :: "socket_id list"

definition set_add :: "socket_id list \<Rightarrow> socket_id \<Rightarrow> socket_id list" where
  "set_add xs x = (if x \<in> set xs then xs else xs @ [x])"

definition set_delete :: "socket_id list \<Rightarrow> socket_id \<Rightarrow> socket_id list" where
  "set_delete xs x = removeAll x xs"

text \<open>
  The report store of \<open>MemStorage\<close> (its user table is not touched by the handlers and
  is left out). \<open>InsertReport\<close> is the record the handler builds,
  \<open>Report\<close> is \<open>{ ...insertReport, id }\<close>. The timestamp is the clock reading
  (\<open>new Date()\<close>) in milliseconds, supplied with the event.
\<close>

record report_payload =
  arg_reason :: string
  arg_details :: string

record insertReport =
  reporterId :: socket_id
  reportedId :: socket_id
  reason :: string
  details :: string
  timestamp :: nat

record report =
  rep_reporterId :: socket_id
  rep_reportedId :: socket_id
  rep_reason :: string
  rep_details :: string
  rep_timestamp :: nat
  report_id :: nat

record memStorage =
  reports :: "nat \<rightharpoonup> report"
  reportIdCounter :: nat

text \<open>
  \<open>reportIdCounter++\<close> acts on a JavaScript number. On the integers up to \<open>2^53\<close> a
  double is exact; at \<open>2^53\<close> adding one rounds back to \<open>2^53\<close>.
\<close>

definition js_incr :: "nat \<Rightarrow> nat" where
  "js_incr c = (if c < 2 ^ 53 then c + 1 else c)"

definition createReport :: "memStorage \<Rightarrow> insertReport \<Rightarrow> memStorage \<times> report" where
  "createReport st ins =
     (let rid = reportIdCounter st;
          rep = \<lparr> rep_reporterId = reporterId ins, rep_reportedId = reportedId ins,
                  rep_reason = reason ins, rep_details = details ins,
                  rep_timestamp = timestamp ins, report_id = rid \<rparr>
      in (st\<lparr> reports := (reports st)(rid \<mapsto> rep),
               reportIdCounter := js_incr (reportIdCounter st) \<rparr>, rep))"

definition getReports :: "memStorage \<Rightarrow> report set" where
  "getReports st = ran (reports st)"

record state =
  activeUsers :: "socket_id \<rightharpoonup> user"
  waitingUsers :: waiting
  storage :: memStorage

definition initial_state :: state where
  "initial_state =
     \<lparr> activeUsers = Map.empty,
       waitingUsers = \<lparr> male = [], female = [], both = [] \<rparr>,
       storage = \<lparr> reports = Map.empty, reportIdCounter = 1 \<rparr> \<rparr>"

text \<open>
  What a handler leaves behind: the state after it, the events it emitted (room, event
  name, argument) in order, and the exception that ended it, if any. A handler that
  throws keeps the mutations it made before. A \<open>TypeError\<close> carries the name of the
  property whose access failed.
\<close>

datatype error = TypeError string

type_synonym emission = "socket_id \<times> string \<times> payload option"

record outcome =
  post :: state
  emitted :: "emission list"
  thrown :: "error option"

definition completed :: "state \<Rightarrow> emission list \<Rightarrow> outcome" where
  "completed s out = \<lparr> post = s, emitted = out, thrown = None \<rparr>"

text \<open>
  \<open>if (user.currentPeer)\<close> and \<open>if (matchId)\<close> test truthiness: \<open>null\<close> and the empty
  string are false.
\<close>

definition truthy :: "socket_id option \<Rightarrow> socket_id option" where
  "truthy v = (case v of None \<Rightarrow> None | Some x \<Rightarrow> (if x = [] then None else Some x))"

section \<open>Match engine and waiting pool\<close>

text \<open>The loop \<open>for (const matchId of potentialMatches) if (matchId !== socket.id) return matchId\<close>.\<close>

fun first_valid :: "socket_id \<Rightarrow> socket_id list \<Rightarrow> socket_id option" where
  "first_valid sid [] = None"
| "first_valid sid (matchId # rest) =
     (if matchId \<noteq> sid then Some matchId else first_valid sid rest)"

text \<open>
  The callback of \<open>potentialMatches.filter\<close>, run over the list in order:
  \<open>match && (match.preferences.country === ... || ...)\<close>. A candidate without a session
  is dropped; a candidate whose stored preferences is \<open>null\<close> makes the filter throw.
\<close>

fun filter_country :: "state \<Rightarrow> string \<Rightarrow> socket_id list \<Rightarrow> error + socket_id list" where
  "filter_country s country [] = Inr []"
| "filter_country s country (cid # rest) =
     (case activeUsers s cid of
        None \<Rightarrow> filter_country s country rest
      | Some m \<Rightarrow>
          (case preferences m of
             None \<Rightarrow> Inl (TypeError ''country'')
           | Some mp \<Rightarrow>
               (case filter_country s country rest of
                  Inl e \<Rightarrow> Inl e
                | Inr kept \<Rightarrow>
                    Inr (if pref_country mp = country \<or> pref_country mp = ''any''
                         then cid # kept else kept))))"

text \<open>
  \<open>findMatch\<close> returns an identifier or \<open>null\<close>, or throws: at \<open>user.preferences.gender\<close>
  when the seeker's stored preferences is \<open>null\<close>, and inside the filter.
\<close>

definition findMatch :: "state \<Rightarrow> socket_id \<Rightarrow> error + socket_id option" where
  "findMatch s sid =
     (case activeUsers s sid of
        None \<Rightarrow> Inr None
      | Some usr \<Rightarrow>
          (case preferences usr of
             None \<Rightarrow> Inl (TypeError ''gender'')
           | Some prefs \<Rightarrow>
               (let potentialMatches =
                      (if pref_gender prefs = ''male'' then male (waitingUsers s)
                       else if pref_gender prefs = ''female'' then female (waitingUsers s)
                       else male (waitingUsers s) @ female (waitingUsers s) @ both (waitingUsers s))
                in if pref_country prefs \<noteq> ''any''
                   then (case filter_country s (pref_country prefs) potentialMatches of
                           Inl e \<Rightarrow> Inl e
                         | Inr potentialMatches' \<Rightarrow> Inr (first_valid sid potentialMatches'))
                   else Inr (first_valid sid potentialMatches))))"

definition removeFromWaitingPools :: "state \<Rightarrow> socket_id \<Rightarrow> state" where
  "removeFromWaitingPools s sid =
     s\<lparr> waitingUsers :=
          \<lparr> male = set_delete (male (waitingUsers s)) sid,
            female = set_delete (female (waitingUsers s)) sid,
            both = set_delete (both (waitingUsers s)) sid \<rparr> \<rparr>"

definition addToWaitingPool :: "state \<Rightarrow> socket_id \<Rightarrow> state" where
  "addToWaitingPool s sid =
     (case activeUsers s sid of
        None \<Rightarrow> s
      | Some usr \<Rightarrow>
          (let w = \<lparr> male = set_delete (male (waitingUsers s)) sid,
                     female = set_delete (female (waitingUsers s)) sid,
                     both = set_delete (both (waitingUsers s)) sid \<rparr>
           in if gender usr = ''male'' then s\<lparr> waitingUsers := w\<lparr> male := set_add (male w) sid \<rparr> \<rparr>
              else if gender usr = ''female'' then s\<lparr> waitingUsers := w\<lparr> female := set_add (female w) sid \<rparr> \<rparr>
              else s\<lparr> waitingUsers := w\<lparr> both := set_add (both w) sid \<rparr> \<rparr>))"

section \<open>Event handlers\<close>

text \<open>\<open>io.on("connection")\<close>: the session is created with the default fields.\<close>

definition connection :: "state \<Rightarrow> socket_id \<Rightarrow> outcome" where
  "connection s sid =
     completed (s\<lparr> activeUsers := (activeUsers s)(sid \<mapsto>
              \<lparr> user_id = sid, gender = ''both'',
                preferences = Some \<lparr> pref_gender = ''both'', pref_country = ''any'' \<rparr>,
                currentPeer = None \<rparr>) \<rparr>) []"

definition update_preferences :: "state \<Rightarrow> socket_id \<Rightarrow> preferences option \<Rightarrow> outcome" where
  "update_preferences s sid prefs =
     (case activeUsers s sid of
        None \<Rightarrow> completed s []
      | Some usr \<Rightarrow>
          completed (s\<lparr> activeUsers := (activeUsers s)(sid \<mapsto> usr\<lparr> preferences := prefs \<rparr>) \<rparr>) [])"

text \<open>
  The block \<open>const peer = activeUsers.get(p); if (peer) { peer.currentPeer = null; ... }\<close>
  that find-peer, report-user and disconnect share: the state part.
\<close>

definition clear_peer :: "state \<Rightarrow> socket_id \<Rightarrow> state" where
  "clear_peer s p =
     (case activeUsers s p of
        None \<Rightarrow> s
      | Some peer \<Rightarrow> s\<lparr> activeUsers := (activeUsers s)(p \<mapsto> peer\<lparr> currentPeer := None \<rparr>) \<rparr>)"

definition set_currentPeer :: "state \<Rightarrow> socket_id \<Rightarrow> user \<Rightarrow> socket_id option \<Rightarrow> state" where
  "set_currentPeer s sid usr v =
     s\<lparr> activeUsers := (activeUsers s)(sid \<mapsto> usr\<lparr> currentPeer := v \<rparr>) \<rparr>"

text \<open>
  find-peer, first block (\<open>if (user.currentPeer) { ... }\<close>): the old pairing is given up.
  \<open>user.currentPeer = null\<close> writes into the registered object itself.
\<close>

definition find_peer_teardown :: "state \<Rightarrow> socket_id \<Rightarrow> user \<Rightarrow> state \<times> emission list" where
  "find_peer_teardown s sid usr =
     (case truthy (currentPeer usr) of
        None \<Rightarrow> (s, [])
      | Some p \<Rightarrow>
          (set_currentPeer (clear_peer s p) sid usr None,
           (case activeUsers s p of
              None \<Rightarrow> []
            | Some peer \<Rightarrow> [(p, ''peer-disconnected'', None)])))"

text \<open>
  find-peer, second block: \<open>findMatch\<close>, then either the commit or the enqueue. When
  \<open>findMatch\<close> throws, the handler ends there, with the teardown done.
  \<open>match.currentPeer = socket.id\<close> has no guard: on a missing session it throws, after
  \<open>user.currentPeer = matchId\<close> has been written.
\<close>

definition find_peer_match :: "state \<Rightarrow> socket_id \<Rightarrow> user \<Rightarrow> emission list \<Rightarrow> outcome" where
  "find_peer_match s1 sid usr out1 =
     (case findMatch s1 sid of
        Inl e \<Rightarrow> \<lparr> post = s1, emitted = out1, thrown = Some e \<rparr>
      | Inr found \<Rightarrow>
          (case truthy found of
             Some matchId \<Rightarrow>
               (let s2 = set_currentPeer s1 sid usr (Some matchId)
                in case activeUsers s1 matchId of
                     None \<Rightarrow> \<lparr> post = s2, emitted = out1,
                               thrown = Some (TypeError ''currentPeer'') \<rparr>
                   | Some m \<Rightarrow>
                       (let s3 = set_currentPeer s2 matchId m (Some sid);
                            s4 = removeFromWaitingPools s3 sid;
                            s5 = removeFromWaitingPools s4 matchId
                        in completed s5
                             (out1 @ [(sid, ''ready'', None), (matchId, ''ready'', None)])))
           | None \<Rightarrow> completed (addToWaitingPool s1 sid) out1))"

definition find_peer :: "state \<Rightarrow> socket_id \<Rightarrow> outcome" where
  "find_peer s sid =
     (case activeUsers s sid of
        None \<Rightarrow> completed s []
      | Some usr \<Rightarrow>
          (let (s1, out1) = find_peer_teardown s sid usr
           in find_peer_match s1 sid usr out1))"

text \<open>The four relays: offer, answer, ice-candidate, chat-message.\<close>

definition relay :: "string \<Rightarrow> state \<Rightarrow> socket_id \<Rightarrow> payload \<Rightarrow> outcome" where
  "relay kind s sid pl =
     (case activeUsers s sid of
        None \<Rightarrow> completed s []
      | Some usr \<Rightarrow>
          (case truthy (currentPeer usr) of
             None \<Rightarrow> completed s []
           | Some p \<Rightarrow> completed s [(p, kind, Some pl)]))"

definition offer :: "state \<Rightarrow> socket_id \<Rightarrow> payload \<Rightarrow> outcome" where
  "offer = relay ''offer''"

definition answer :: "state \<Rightarrow> socket_id \<Rightarrow> payload \<Rightarrow> outcome" where
  "answer = relay ''answer''"

definition ice_candidate :: "state \<Rightarrow> socket_id \<Rightarrow> payload \<Rightarrow> outcome" where
  "ice_candidate = relay ''ice-candidate''"

definition chat_message :: "state \<Rightarrow> socket_id \<Rightarrow> payload \<Rightarrow> outcome" where
  "chat_message = relay ''chat-message''"

text \<open>
  report-user. The parameter pattern \<open>({ reason, details })\<close> is evaluated before the
  body: without a payload the handler throws at once.
\<close>

definition report_user :: "state \<Rightarrow> socket_id \<Rightarrow> report_payload option \<Rightarrow> nat \<Rightarrow> outcome" where
  "report_user s sid arg now =
     (case arg of
        None \<Rightarrow> \<lparr> post = s, emitted = [], thrown = Some (TypeError ''reason'') \<rparr>
      | Some pl \<Rightarrow>
          (case activeUsers s sid of
             None \<Rightarrow> completed s []
           | Some usr \<Rightarrow>
               (case truthy (currentPeer usr) of
                  None \<Rightarrow> completed s []
                | Some p \<Rightarrow>
                    (let s1 = s\<lparr> storage := fst (createReport (storage s)
                                  \<lparr> reporterId = sid, reportedId = p, reason = arg_reason pl,
                                    details = arg_details pl, timestamp = now \<rparr>) \<rparr>;
                         out = (case activeUsers s1 p of
                                  None \<Rightarrow> []
                                | Some peer \<Rightarrow> [(p, ''peer-disconnected'', None)]);
                         s2 = clear_peer s1 p
                     in completed (set_currentPeer s2 sid usr None) out))))"

definition disconnect :: "state \<Rightarrow> socket_id \<Rightarrow> outcome" where
  "disconnect s sid =
     (let (s1, out) =
            (case activeUsers s sid of
               None \<Rightarrow> (s, [])
             | Some usr \<Rightarrow>
                 (case truthy (currentPeer usr) of
                    None \<Rightarrow> (s, [])
                  | Some p \<Rightarrow> (clear_peer s p, [(p, ''peer-disconnected'', None)])));
          s2 = removeFromWaitingPools s1 sid
      in completed (s2\<lparr> activeUsers := (activeUsers s2)(sid := None) \<rparr>) out)"

section \<open>Events and reachable states\<close>

datatype event =
    Connection socket_id
  | UpdatePreferences socket_id "preferences option"
  | FindPeer socket_id
  | Offer socket_id payload
  | Answer socket_id payload
  | IceCandidate socket_id payload
  | ChatMessage socket_id payload
  | ReportUser socket_id "report_payload option" nat
  | Disconnect socket_id

fun handle :: "state \<Rightarrow> event \<Rightarrow> outcome" where
  "handle s (Connection sid) = connection s sid"
| "handle s (UpdatePreferences sid prefs) = update_preferences s sid prefs"
| "handle s (FindPeer sid) = find_peer s sid"
| "handle s (Offer sid pl) = offer s sid pl"
| "handle s (Answer sid pl) = answer s sid pl"
| "handle s (IceCandidate sid pl) = ice_candidate s sid pl"
| "handle s (ChatMessage sid pl) = chat_message s sid pl"
| "handle s (ReportUser sid arg now) = report_user s sid arg now"
| "handle s (Disconnect sid) = disconnect s sid"

text \<open>
  The transport layer owns the identifiers: a new connection carries a non-empty
  identifier that no live session has. Every other event may arrive for any identifier.
\<close>

fun admissible :: "state \<Rightarrow> event \<Rightarrow> bool" where
  "admissible s (Connection sid) = (sid \<noteq> [] \<and> activeUsers s sid = None)"
| "admissible s _ = True"

inductive reachable :: "state \<Rightarrow> bool" where
  reachable_init: "reachable initial_state"
| reachable_step: "reachable s \<Longrightarrow> admissible s e \<Longrightarrow> reachable (post (handle s e))"

code_pred reachable .

fun run :: "state \<Rightarrow> event list \<Rightarrow> state" where
  "run s [] = s"
| "run s (e # es) = run (post (handle s e)) es"

fun admissible_trace :: "state \<Rightarrow> event list \<Rightarrow> bool" where
  "admissible_trace s [] = True"
| "admissible_trace s (e # es) = (admissible s e \<and> admissible_trace (post (handle s e)) es)"

section \<open>The match engine as the specification words it\<close>

text \<open>
  The specification's algorithm for \<open>findMatch\<close>, step by step: the candidate list of the
  desired category, the region filter on the candidate's own stored region, the seeker
  taken out, the first survivor returned.
\<close>

definition spec_candidates :: "state \<Rightarrow> string \<Rightarrow> socket_id list" where
  "spec_candidates s desired =
     (if desired = ''male'' then male (waitingUsers s)
      else if desired = ''female'' then female (waitingUsers s)
      else male (waitingUsers s) @ female (waitingUsers s) @ both (waitingUsers s))"

definition spec_region_kept :: "state \<Rightarrow> string \<Rightarrow> socket_id \<Rightarrow> bool" where
  "spec_region_kept s region c =
     (case activeUsers s c of
        None \<Rightarrow> False
      | Some cand \<Rightarrow>
          (case preferences cand of
             None \<Rightarrow> False
           | Some q \<Rightarrow> pref_country q = region \<or> pref_country q = ''any''))"

definition findMatch_spec :: "state \<Rightarrow> socket_id \<Rightarrow> socket_id option" where
  "findMatch_spec s seekerId =
     (case activeUsers s seekerId of
        None \<Rightarrow> None
      | Some seeker \<Rightarrow>
          (case preferences seeker of
             None \<Rightarrow> None
           | Some wanted \<Rightarrow>
               (let cands = spec_candidates s (pref_gender wanted);
                    kept = (if pref_country wanted = ''any'' then cands
                            else filter (spec_region_kept s (pref_country wanted)) cands);
                    surviving = filter (\<lambda>c. c \<noteq> seekerId) kept
                in case surviving of [] \<Rightarrow> None | c # _ \<Rightarrow> Some c)))"

text \<open>
  What the specification's data model leaves out: a registered session whose stored
  preferences is \<open>null\<close>. \<open>findMatch_spec\<close> gives none for such a seeker and keeps no such
  candidate. \<open>unreadable_candidate\<close> says that the candidate list holds one.
\<close>

definition no_preferences :: "state \<Rightarrow> socket_id \<Rightarrow> bool" where
  "no_preferences s c =
     (case activeUsers s c of None \<Rightarrow> False | Some cand \<Rightarrow> preferences cand = None)"

definition unreadable_candidate :: "state \<Rightarrow> string \<Rightarrow> bool" where
  "unreadable_candidate s desired = list_ex (no_preferences s) (spec_candidates s desired)"

section \<open>Invariants of the reachable states\<close>

text \<open>
  Every registered session is stored under its own identifier, which is not empty, and
  still has the gender it was created with.
\<close>

definition users_wf :: "state \<Rightarrow> bool" where
  "users_wf s = (\<forall>a u. activeUsers s a = Some u \<longrightarrow>
       user_id u = a \<and> gender u = ''both'' \<and> a \<noteq> [])"

text \<open>A peer reference is never the empty string, and the peer is registered and points back.\<close>

definition sym_map :: "(socket_id \<rightharpoonup> user) \<Rightarrow> bool" where
  "sym_map m = (\<forall>a u p. m a = Some u \<longrightarrow> currentPeer u = Some p \<longrightarrow>
       p \<noteq> [] \<and> (\<exists>v. m p = Some v \<and> currentPeer v = Some a))"

text \<open>
  Only the \<open>both\<close> pool is ever filled, it holds no identifier twice, and everything in
  it is a registered session without a peer.
\<close>

definition pools_wf :: "state \<Rightarrow> bool" where
  "pools_wf s = (male (waitingUsers s) = [] \<and> female (waitingUsers s) = [] \<and>
       distinct (both (waitingUsers s)) \<and>
       (\<forall>x \<in> set (both (waitingUsers s)). \<exists>u. activeUsers s x = Some u \<and> currentPeer u = None))"

text \<open>
  A stored report carries its key as identifier, and the keys sit below the counter as
  long as the counter is exact.
\<close>

definition store_wf :: "state \<Rightarrow> bool" where
  "store_wf s = (\<forall>k r. reports (storage s) k = Some r \<longrightarrow>
       report_id r = k \<and> (k < reportIdCounter (storage s) \<or> 2 ^ 53 \<le> reportIdCounter (storage s)))"

definition inv :: "state \<Rightarrow> bool" where
  "inv s = (users_wf s \<and> sym_map (activeUsers s) \<and> pools_wf s \<and> store_wf s)"

section \<open>Pool membership and sample runs\<close>

text \<open>In how many of the three partitions an identifier sits.\<close>

definition pool_membership :: "state \<Rightarrow> socket_id \<Rightarrow> nat" where
  "pool_membership s x =
     (if x \<in> set (male (waitingUsers s)) then 1 else 0)
     + (if x \<in> set (female (waitingUsers s)) then 1 else 0)
     + (if x \<in> set (both (waitingUsers s)) then 1 else 0)"

text \<open>
  Sample runs from the empty state: \<open>a\<close> waits while \<open>b\<close> is idle; \<open>a\<close> and \<open>b\<close> are
  paired; \<open>b\<close> waits while \<open>a\<close> asks for male partners only.
\<close>

definition default_user :: "socket_id \<Rightarrow> user" where
  "default_user sid = \<lparr> user_id = sid, gender = ''both'',
      preferences = Some \<lparr> pref_gender = ''both'', pref_country = ''any'' \<rparr>,
      currentPeer = None \<rparr>"

definition trace_waiting :: "event list" where
  "trace_waiting = [Connection ''a'', Connection ''b'', FindPeer ''a'']"

definition trace_paired :: "event list" where
  "trace_paired = [Connection ''a'', Connection ''b'', FindPeer ''a'', FindPeer ''b'']"

definition trace_male_seeker :: "event list" where
  "trace_male_seeker = [Connection ''a'', Connection ''b'', FindPeer ''b'',
     UpdatePreferences ''a'' (Some \<lparr> pref_gender = ''male'', pref_country = ''any'' \<rparr>)]"

text \<open>
  Runs in which a client sends \<open>null\<close> as its preferences: \<open>a\<close> alone; and \<open>a\<close> waiting
  in the pool while \<open>b\<close> asks for partners from one country.
\<close>

definition trace_null_prefs :: "event list" where
  "trace_null_prefs = [Connection ''a'', UpdatePreferences ''a'' None]"

definition trace_null_candidate :: "event list" where
  "trace_null_candidate = [Connection ''a'', Connection ''b'', FindPeer ''a'',
     UpdatePreferences ''a'' None,
     UpdatePreferences ''b'' (Some \<lparr> pref_gender = ''both'', pref_country = ''DE'' \<rparr>)]"

text \<open>
  Two states that no run produces: a male session that sits in two wrong pools, and a
  pool that holds an identifier without a session.
\<close>

definition stray_male_state :: state where
  "stray_male_state =
     \<lparr> activeUsers = [''m'' \<mapsto> (default_user ''m'')\<lparr>gender := ''male''\<rparr>],
       waitingUsers = \<lparr> male = [], female = [''m''], both = [''x'', ''m''] \<rparr>,
       storage = \<lparr> reports = Map.empty, reportIdCounter = 1 \<rparr> \<rparr>"

definition dangling_state :: state where
  "dangling_state =
     \<lparr> activeUsers = [''a'' \<mapsto> default_user ''a''],
       waitingUsers = \<lparr> male = [], female = [], both = [''ghost''] \<rparr>,
       storage = \<lparr> reports = Map.empty, reportIdCounter = 1 \<rparr> \<rparr>"






section \<open>Proofs of the invariants\<close>

subsection \<open>Symmetric peer maps\<close>

lemma sym_mapD:
  "sym_map m \<Longrightarrow> m a = Some u \<Longrightarrow> currentPeer u = Some p \<Longrightarrow>
     p \<noteq> [] \<and> (\<exists>v. m p = Some v \<and> currentPeer v = Some a)"
  unfolding sym_map_def by blast

lemma sym_map_unpair:
  assumes sm: "sym_map m" and a: "m a = Some u" and p: "currentPeer u = Some p"
    and pv: "m p = Some v"
  shows "sym_map (m(p \<mapsto> v\<lparr>currentPeer := None\<rparr>, a \<mapsto> u\<lparr>currentPeer := None\<rparr>))"
    (is "sym_map ?m'")
  unfolding sym_map_def
proof (intro allI impI)
  fix x ux q
  assume x: "?m' x = Some ux" and q: "currentPeer ux = Some q"
  from sym_mapD[OF sm a p] pv have va: "currentPeer v = Some a" by auto
  from x q have xa: "x \<noteq> a" by auto
  from x q xa have xp: "x \<noteq> p" by auto
  from x xa xp have mx: "m x = Some ux" by simp
  from sym_mapD[OF sm mx q] obtain w where
    qne: "q \<noteq> []" and w: "m q = Some w" "currentPeer w = Some x" by blast
  from w a p xp have qa: "q \<noteq> a" by auto
  from w pv va xa have qp: "q \<noteq> p" by auto
  from qa qp w have "?m' q = Some w" by simp
  with qne w show "q \<noteq> [] \<and> (\<exists>v. ?m' q = Some v \<and> currentPeer v = Some x)" by blast
qed

lemma sym_map_remove_unpaired:
  assumes sm: "sym_map m" and a: "m a = Some u" and p: "currentPeer u = None"
  shows "sym_map (m(a := None))"
  unfolding sym_map_def
proof (intro allI impI)
  fix x ux q
  assume x: "(m(a := None)) x = Some ux" and q: "currentPeer ux = Some q"
  from x have xa: "x \<noteq> a" and mx: "m x = Some ux" by (auto split: if_splits)
  from sym_mapD[OF sm mx q] obtain w where
    qne: "q \<noteq> []" and w: "m q = Some w" "currentPeer w = Some x" by blast
  from w a p have "q \<noteq> a" by auto
  with qne w show "q \<noteq> [] \<and> (\<exists>v. (m(a := None)) q = Some v \<and> currentPeer v = Some x)" by simp
qed

lemma sym_map_same_peer:
  assumes sm: "sym_map m" and a: "m a = Some u" and c: "currentPeer u' = currentPeer u"
  shows "sym_map (m(a \<mapsto> u'))"
  unfolding sym_map_def
proof (intro allI impI)
  fix x ux q
  assume x: "(m(a \<mapsto> u')) x = Some ux" and q: "currentPeer ux = Some q"
  obtain ux0 where mx: "m x = Some ux0" and cq: "currentPeer ux0 = Some q"
    using x q a c by (cases "x = a") auto
  from sym_mapD[OF sm mx cq] obtain w where
    qne: "q \<noteq> []" and w: "m q = Some w" "currentPeer w = Some x" by blast
  show "q \<noteq> [] \<and> (\<exists>v. (m(a \<mapsto> u')) q = Some v \<and> currentPeer v = Some x)"
    using qne w a c by (cases "q = a") auto
qed

lemma sym_map_new:
  assumes sm: "sym_map m" and a: "m a = None" and c: "currentPeer u = None"
  shows "sym_map (m(a \<mapsto> u))"
  unfolding sym_map_def
proof (intro allI impI)
  fix x ux q
  assume x: "(m(a \<mapsto> u)) x = Some ux" and q: "currentPeer ux = Some q"
  from x q c have xa: "x \<noteq> a" and mx: "m x = Some ux" by (auto split: if_splits)
  from sym_mapD[OF sm mx q] obtain w where
    qne: "q \<noteq> []" and w: "m q = Some w" "currentPeer w = Some x" by blast
  from w a have "q \<noteq> a" by auto
  with qne w show "q \<noteq> [] \<and> (\<exists>v. (m(a \<mapsto> u)) q = Some v \<and> currentPeer v = Some x)" by simp
qed

lemma sym_map_pair:
  assumes sm: "sym_map m" and a: "m a = Some u" "currentPeer u = None"
    and b: "m b = Some v" "currentPeer v = None" and ne: "a \<noteq> b" "a \<noteq> []" "b \<noteq> []"
  shows "sym_map (m(a \<mapsto> u\<lparr>currentPeer := Some b\<rparr>, b \<mapsto> v\<lparr>currentPeer := Some a\<rparr>))"
    (is "sym_map ?m'")
  unfolding sym_map_def
proof (intro allI impI)
  fix x ux q
  assume x: "?m' x = Some ux" and q: "currentPeer ux = Some q"
  show "q \<noteq> [] \<and> (\<exists>w. ?m' q = Some w \<and> currentPeer w = Some x)"
  proof (cases "x = a \<or> x = b")
    case True
    then show ?thesis using x q ne by auto
  next
    case False
    with x have mx: "m x = Some ux" by simp
    from sym_mapD[OF sm mx q] obtain w where
      qne: "q \<noteq> []" and w: "m q = Some w" "currentPeer w = Some x" by blast
    from w a b have "q \<noteq> a" "q \<noteq> b" by auto
    with qne w show ?thesis by simp
  qed
qed

lemma first_valid_Some: "first_valid sid xs = Some m \<Longrightarrow> m \<in> set xs \<and> m \<noteq> sid"
  by (induction xs) (auto split: if_splits)

lemma filter_country_subset: "filter_country s c xs = Inr ys \<Longrightarrow> set ys \<subseteq> set xs"
  by (induction xs arbitrary: ys) (auto split: option.splits sum.splits if_splits)

lemma filter_country_error: "filter_country s c xs = Inl e \<Longrightarrow> e = TypeError ''country''"
  by (induction xs) (auto split: option.splits sum.splits)

lemma findMatch_Some:
  assumes "findMatch s sid = Inr (Some m)"
  shows "m \<noteq> sid \<and> m \<in> set (male (waitingUsers s)) \<union> set (female (waitingUsers s))
                     \<union> set (both (waitingUsers s))"
proof (cases "activeUsers s sid")
  case None
  with assms show ?thesis by (simp add: findMatch_def)
next
  case (Some usr)
  show ?thesis
  proof (cases "preferences usr")
    case None
    with Some assms show ?thesis by (simp add: findMatch_def)
  next
    case (Some prefs)
    let ?pm = "if pref_gender prefs = ''male'' then male (waitingUsers s)
               else if pref_gender prefs = ''female'' then female (waitingUsers s)
               else male (waitingUsers s) @ female (waitingUsers s) @ both (waitingUsers s)"
    have sub: "set ?pm \<subseteq> set (male (waitingUsers s)) \<union> set (female (waitingUsers s))
                     \<union> set (both (waitingUsers s))"
      by auto
    show ?thesis
    proof (cases "pref_country prefs = ''any''")
      case True
      with assms \<open>activeUsers s sid = Some usr\<close> Some
      have "first_valid sid ?pm = Some m" by (simp add: findMatch_def Let_def)
      from first_valid_Some[OF this] sub show ?thesis by blast
    next
      case False
      with assms \<open>activeUsers s sid = Some usr\<close> Some
      obtain ys where ys: "filter_country s (pref_country prefs) ?pm = Inr ys"
        and fv: "first_valid sid ys = Some m"
        by (auto simp: findMatch_def Let_def split: sum.splits)
      from first_valid_Some[OF fv] filter_country_subset[OF ys] sub show ?thesis by blast
    qed
  qed
qed

lemma findMatch_error:
  "findMatch s sid = Inl e \<Longrightarrow> e = TypeError ''gender'' \<or> e = TypeError ''country''"
  by (auto simp: findMatch_def Let_def split: option.splits if_splits sum.splits
      dest: filter_country_error)

lemma truthy_Some: "truthy v = Some p \<longleftrightarrow> v = Some p \<and> p \<noteq> []"
  by (auto simp: truthy_def split: option.splits)

lemma inv_initial: "inv initial_state"
  by (simp add: inv_def users_wf_def sym_map_def pools_wf_def store_wf_def initial_state_def)

subsection \<open>Preservation by the handlers\<close>

lemma inv_connection: "inv s \<Longrightarrow> admissible s (Connection sid) \<Longrightarrow> inv (post (connection s sid))"
  unfolding inv_def
  apply (intro conjI)
  subgoal by (auto simp: users_wf_def connection_def completed_def)
  subgoal by (simp add: connection_def completed_def sym_map_new)
  subgoal by (auto simp: pools_wf_def connection_def completed_def)
  subgoal by (auto simp: store_wf_def connection_def completed_def)
  done

lemma inv_update_preferences: "inv s \<Longrightarrow> inv (post (update_preferences s sid prefs))"
  unfolding inv_def
  apply (intro conjI)
  subgoal by (auto simp: users_wf_def update_preferences_def completed_def split: option.splits)
  subgoal by (auto simp: update_preferences_def completed_def sym_map_same_peer split: option.splits)
  subgoal by (auto simp: pools_wf_def update_preferences_def completed_def split: option.splits)
  subgoal by (auto simp: store_wf_def update_preferences_def completed_def split: option.splits)
  done

lemma post_relay: "post (relay kind s sid pl) = s"
  by (auto simp: relay_def completed_def split: option.splits)

text \<open>The state after giving up a pairing.\<close>

lemma unpair_state:
  assumes "activeUsers s p = Some v"
  shows "set_currentPeer (clear_peer s p) a u None =
         s\<lparr> activeUsers := (activeUsers s)(p \<mapsto> v\<lparr>currentPeer := None\<rparr>, a \<mapsto> u\<lparr>currentPeer := None\<rparr>) \<rparr>"
  using assms by (simp add: set_currentPeer_def clear_peer_def)

lemma inv_unpair:
  assumes i: "inv s" and a: "activeUsers s a = Some u" and p: "currentPeer u = Some p"
    and v: "activeUsers s p = Some v"
  shows "inv (s\<lparr> activeUsers := (activeUsers s)(p \<mapsto> v\<lparr>currentPeer := None\<rparr>, a \<mapsto> u\<lparr>currentPeer := None\<rparr>) \<rparr>)"
  unfolding inv_def
proof (intro conjI)
  show "users_wf (s\<lparr> activeUsers := (activeUsers s)(p \<mapsto> v\<lparr>currentPeer := None\<rparr>, a \<mapsto> u\<lparr>currentPeer := None\<rparr>) \<rparr>)"
    using i a v by (auto simp: inv_def users_wf_def)
  show "sym_map (activeUsers (s\<lparr> activeUsers := (activeUsers s)(p \<mapsto> v\<lparr>currentPeer := None\<rparr>, a \<mapsto> u\<lparr>currentPeer := None\<rparr>) \<rparr>))"
    using i a p v by (simp add: inv_def sym_map_unpair)
  show "pools_wf (s\<lparr> activeUsers := (activeUsers s)(p \<mapsto> v\<lparr>currentPeer := None\<rparr>, a \<mapsto> u\<lparr>currentPeer := None\<rparr>) \<rparr>)"
    using i a v by (auto simp: inv_def pools_wf_def)
  show "store_wf (s\<lparr> activeUsers := (activeUsers s)(p \<mapsto> v\<lparr>currentPeer := None\<rparr>, a \<mapsto> u\<lparr>currentPeer := None\<rparr>) \<rparr>)"
    using i by (auto simp: inv_def store_wf_def)
qed

lemma inv_peer:
  "inv s \<Longrightarrow> activeUsers s a = Some u \<Longrightarrow> currentPeer u = Some p \<Longrightarrow>
     p \<noteq> [] \<and> (\<exists>v. activeUsers s p = Some v \<and> currentPeer v = Some a)"
  by (auto simp: inv_def dest: sym_mapD)

lemma inv_storage: "inv s \<Longrightarrow> store_wf (s\<lparr>storage := st\<rparr>) \<Longrightarrow> inv (s\<lparr>storage := st\<rparr>)"
  by (simp add: inv_def users_wf_def pools_wf_def)

lemma store_wf_createReport:
  "store_wf s \<Longrightarrow> store_wf (s\<lparr>storage := fst (createReport (storage s) ins)\<rparr>)"
proof -
  assume w: "store_wf s"
  show ?thesis
    unfolding store_wf_def
  proof (intro allI impI)
    fix k r
    assume r: "reports (storage (s\<lparr>storage := fst (createReport (storage s) ins)\<rparr>)) k = Some r"
    show "report_id r = k \<and>
        (k < reportIdCounter (storage (s\<lparr>storage := fst (createReport (storage s) ins)\<rparr>))
         \<or> 2 ^ 53 \<le> reportIdCounter (storage (s\<lparr>storage := fst (createReport (storage s) ins)\<rparr>)))"
    proof (cases "k = reportIdCounter (storage s)")
      case True
      with r show ?thesis by (auto simp: createReport_def Let_def js_incr_def)
    next
      case False
      with r have "reports (storage s) k = Some r" by (simp add: createReport_def Let_def)
      with w have "report_id r = k"
        and "k < reportIdCounter (storage s) \<or> 2 ^ 53 \<le> reportIdCounter (storage s)"
        unfolding store_wf_def by blast+
      then show ?thesis by (auto simp: createReport_def Let_def js_incr_def)
    qed
  qed
qed

lemma report_user_no_payload:
  "report_user s sid None now = \<lparr> post = s, emitted = [], thrown = Some (TypeError ''reason'') \<rparr>"
  by (simp add: report_user_def)

lemma report_user_idle:
  assumes "activeUsers s sid = None \<or> (\<exists>u. activeUsers s sid = Some u \<and> truthy (currentPeer u) = None)"
  shows "report_user s sid (Some pl) now = completed s []"
  using assms by (auto simp: report_user_def)

lemma report_user_paired:
  assumes a: "activeUsers s sid = Some u" and p: "truthy (currentPeer u) = Some p"
    and v: "activeUsers s p = Some v"
  shows "report_user s sid (Some pl) now =
     completed (s\<lparr> storage := fst (createReport (storage s)
                       \<lparr> reporterId = sid, reportedId = p, reason = arg_reason pl,
                         details = arg_details pl, timestamp = now \<rparr>),
                   activeUsers := (activeUsers s)(p \<mapsto> v\<lparr>currentPeer := None\<rparr>, sid \<mapsto> u\<lparr>currentPeer := None\<rparr>) \<rparr>)
               [(p, ''peer-disconnected'', None)]"
  using assms by (simp add: report_user_def Let_def clear_peer_def set_currentPeer_def)

lemma inv_report_user:
  assumes i: "inv s"
  shows "inv (post (report_user s sid arg now))"
proof (cases arg)
  case None
  then show ?thesis using i by (simp add: report_user_no_payload)
next
  case (Some pl)
  show ?thesis
  proof (cases "activeUsers s sid")
    case None
    then show ?thesis using i \<open>arg = Some pl\<close> by (simp add: report_user_idle completed_def)
  next
    case (Some u)
    note u = this
    show ?thesis
    proof (cases "currentPeer u")
      case None
      with u show ?thesis
        using i \<open>arg = Some pl\<close> by (simp add: report_user_idle completed_def truthy_def)
    next
      case (Some p)
      from inv_peer[OF i u Some] obtain v where
        pne: "p \<noteq> []" and v: "activeUsers s p = Some v" by blast
      have t: "truthy (currentPeer u) = Some p" using Some pne by (simp add: truthy_Some)
      let ?s1 = "s\<lparr> storage := fst (createReport (storage s)
                  \<lparr> reporterId = sid, reportedId = p, reason = arg_reason pl,
                    details = arg_details pl, timestamp = now \<rparr>) \<rparr>"
      have sw: "store_wf ?s1" using i by (intro store_wf_createReport) (simp add: inv_def)
      have i1: "inv ?s1" by (rule inv_storage[OF i sw])
      have "inv (?s1\<lparr> activeUsers := (activeUsers ?s1)(p \<mapsto> v\<lparr>currentPeer := None\<rparr>, sid \<mapsto> u\<lparr>currentPeer := None\<rparr>) \<rparr>)"
        by (rule inv_unpair[OF i1 _ Some]) (simp_all add: u v)
      then show ?thesis
        by (simp add: \<open>arg = Some pl\<close> report_user_paired[OF u t v] completed_def)
    qed
  qed
qed

lemma removeFromWaitingPools_users [simp]:
  "activeUsers (removeFromWaitingPools s x) = activeUsers s"
  "storage (removeFromWaitingPools s x) = storage s"
  "male (waitingUsers (removeFromWaitingPools s x)) = removeAll x (male (waitingUsers s))"
  "female (waitingUsers (removeFromWaitingPools s x)) = removeAll x (female (waitingUsers s))"
  "both (waitingUsers (removeFromWaitingPools s x)) = removeAll x (both (waitingUsers s))"
  by (simp_all add: removeFromWaitingPools_def set_delete_def)

lemma disconnect_absent:
  assumes "activeUsers s sid = None"
  shows "disconnect s sid = completed (removeFromWaitingPools s sid) []"
proof -
  have "(activeUsers s)(sid := None) = activeUsers s" using assms by (simp add: fun_upd_idem)
  then show ?thesis using assms by (simp add: disconnect_def Let_def removeFromWaitingPools_def)
qed

lemma disconnect_idle:
  assumes "activeUsers s sid = Some u" and "truthy (currentPeer u) = None"
  shows "disconnect s sid =
     completed ((removeFromWaitingPools s sid)\<lparr> activeUsers := (activeUsers s)(sid := None) \<rparr>) []"
  using assms by (simp add: disconnect_def Let_def)

lemma disconnect_paired:
  assumes "activeUsers s sid = Some u" and "truthy (currentPeer u) = Some p"
    and "activeUsers s p = Some v"
  shows "disconnect s sid =
     completed ((removeFromWaitingPools s sid)
         \<lparr> activeUsers := (activeUsers s)(p \<mapsto> v\<lparr>currentPeer := None\<rparr>, sid := None) \<rparr>)
       [(p, ''peer-disconnected'', None)]"
  using assms by (simp add: disconnect_def Let_def clear_peer_def removeFromWaitingPools_def)

lemma inv_removeFromWaitingPools: "inv s \<Longrightarrow> inv (removeFromWaitingPools s x)"
  by (auto simp: inv_def users_wf_def pools_wf_def store_wf_def distinct_removeAll)

lemma inv_delete_unpaired:
  assumes i: "inv s" and u: "activeUsers s a = Some u" "currentPeer u = None"
    and w: "a \<notin> set (both (waitingUsers s))"
  shows "inv (s\<lparr> activeUsers := (activeUsers s)(a := None) \<rparr>)"
  unfolding inv_def
proof (intro conjI)
  show "users_wf (s\<lparr> activeUsers := (activeUsers s)(a := None) \<rparr>)"
    using i by (auto simp: inv_def users_wf_def)
  show "sym_map (activeUsers (s\<lparr> activeUsers := (activeUsers s)(a := None) \<rparr>))"
    using i u by (simp add: inv_def sym_map_remove_unpaired)
  show "pools_wf (s\<lparr> activeUsers := (activeUsers s)(a := None) \<rparr>)"
    using i w by (auto simp: inv_def pools_wf_def)
  show "store_wf (s\<lparr> activeUsers := (activeUsers s)(a := None) \<rparr>)"
    using i by (auto simp: inv_def store_wf_def)
qed

lemma inv_disconnect:
  assumes i: "inv s"
  shows "inv (post (disconnect s sid))"
proof (cases "activeUsers s sid")
  case None
  then show ?thesis using i by (simp add: disconnect_absent completed_def inv_removeFromWaitingPools)
next
  case (Some u)
  show ?thesis
  proof (cases "currentPeer u")
    case None
    let ?t = "removeFromWaitingPools s sid"
    have "inv (?t\<lparr> activeUsers := (activeUsers ?t)(sid := None) \<rparr>)"
      by (rule inv_delete_unpaired[OF inv_removeFromWaitingPools[OF i], where u = u])
         (simp_all add: Some None)
    then show ?thesis using Some None by (simp add: disconnect_idle completed_def truthy_def)
  next
    case (Some p)
    from inv_peer[OF i \<open>activeUsers s sid = Some u\<close> Some] obtain v where
      pne: "p \<noteq> []" and v: "activeUsers s p = Some v" by blast
    have t: "truthy (currentPeer u) = Some p" using Some pne by (simp add: truthy_Some)
    let ?s1 = "s\<lparr> activeUsers := (activeUsers s)(p \<mapsto> v\<lparr>currentPeer := None\<rparr>, sid \<mapsto> u\<lparr>currentPeer := None\<rparr>) \<rparr>"
    let ?t = "removeFromWaitingPools ?s1 sid"
    have i1: "inv ?s1" by (rule inv_unpair[OF i \<open>activeUsers s sid = Some u\<close> Some v])
    have d: "inv (?t\<lparr> activeUsers := (activeUsers ?t)(sid := None) \<rparr>)"
      by (rule inv_delete_unpaired[OF inv_removeFromWaitingPools[OF i1], where u = "u\<lparr>currentPeer := None\<rparr>"])
         simp_all
    have eq: "?t\<lparr> activeUsers := (activeUsers ?t)(sid := None) \<rparr> =
        (removeFromWaitingPools s sid)\<lparr> activeUsers := (activeUsers s)(p \<mapsto> v\<lparr>currentPeer := None\<rparr>, sid := None) \<rparr>"
      by (simp add: removeFromWaitingPools_def)
    have "inv ((removeFromWaitingPools s sid)\<lparr> activeUsers := (activeUsers s)(p \<mapsto> v\<lparr>currentPeer := None\<rparr>, sid := None) \<rparr>)"
      using d unfolding eq .
    then show ?thesis
      by (simp add: disconnect_paired[OF \<open>activeUsers s sid = Some u\<close> t v] completed_def)
  qed
qed

lemma find_peer_teardown_inv:
  assumes i: "inv s" and u: "activeUsers s sid = Some u"
  shows "inv (fst (find_peer_teardown s sid u)) \<and>
         activeUsers (fst (find_peer_teardown s sid u)) sid = Some (u\<lparr>currentPeer := None\<rparr>) \<and>
         waitingUsers (fst (find_peer_teardown s sid u)) = waitingUsers s \<and>
         storage (fst (find_peer_teardown s sid u)) = storage s"
proof (cases "currentPeer u")
  case None
  then have "find_peer_teardown s sid u = (s, [])" by (simp add: find_peer_teardown_def truthy_def)
  moreover have "u\<lparr>currentPeer := None\<rparr> = u" using None by simp
  ultimately show ?thesis using i u by simp
next
  case (Some p)
  from inv_peer[OF i u Some] obtain v where
    pne: "p \<noteq> []" and v: "activeUsers s p = Some v" by blast
  have t: "truthy (currentPeer u) = Some p" using Some pne by (simp add: truthy_Some)
  have "fst (find_peer_teardown s sid u) =
      s\<lparr> activeUsers := (activeUsers s)(p \<mapsto> v\<lparr>currentPeer := None\<rparr>, sid \<mapsto> u\<lparr>currentPeer := None\<rparr>) \<rparr>"
    using t v by (simp add: find_peer_teardown_def unpair_state)
  then show ?thesis using inv_unpair[OF i u Some v] by simp
qed

lemma inv_pool_member:
  "inv s \<Longrightarrow> findMatch s sid = Inr (Some m) \<Longrightarrow>
     m \<noteq> sid \<and> m \<noteq> [] \<and> m \<in> set (both (waitingUsers s)) \<and>
     (\<exists>v. activeUsers s m = Some v \<and> currentPeer v = None)"
proof -
  assume i: "inv s" and f: "findMatch s sid = Inr (Some m)"
  from findMatch_Some[OF f] i have ne: "m \<noteq> sid" and mem: "m \<in> set (both (waitingUsers s))"
    by (auto simp: inv_def pools_wf_def)
  from mem i obtain v where v: "activeUsers s m = Some v" "currentPeer v = None"
    by (auto simp: inv_def pools_wf_def)
  from v i have "m \<noteq> []" by (auto simp: inv_def users_wf_def)
  with ne mem v show ?thesis by blast
qed

lemma inv_enqueue:
  assumes i: "inv s" and u: "activeUsers s sid = Some u" "currentPeer u = None"
  shows "inv (addToWaitingPool s sid)"
proof -
  have g: "gender u = ''both''" using i u by (simp add: inv_def users_wf_def)
  have eq: "addToWaitingPool s sid =
        s\<lparr> waitingUsers := \<lparr> male = removeAll sid (male (waitingUsers s)),
                              female = removeAll sid (female (waitingUsers s)),
                              both = removeAll sid (both (waitingUsers s)) @ [sid] \<rparr> \<rparr>"
    using u g by (simp add: addToWaitingPool_def Let_def set_add_def set_delete_def)
  show ?thesis unfolding eq using i u
    by (auto simp: inv_def users_wf_def pools_wf_def store_wf_def distinct_removeAll)
qed

lemma inv_commit:
  assumes i: "inv s" and u: "activeUsers s a = Some u" "currentPeer u = None"
    and v: "activeUsers s b = Some v" "currentPeer v = None" and ne: "a \<noteq> b" "b \<noteq> []"
  shows "inv (s\<lparr> activeUsers := (activeUsers s)(a \<mapsto> u\<lparr>currentPeer := Some b\<rparr>, b \<mapsto> v\<lparr>currentPeer := Some a\<rparr>),
                  waitingUsers := \<lparr> male = removeAll b (removeAll a (male (waitingUsers s))),
                                    female = removeAll b (removeAll a (female (waitingUsers s))),
                                    both = removeAll b (removeAll a (both (waitingUsers s))) \<rparr> \<rparr>)"
  unfolding inv_def
proof (intro conjI)
  have ane: "a \<noteq> []" using i u by (auto simp: inv_def users_wf_def)
  show "users_wf (s\<lparr> activeUsers := (activeUsers s)(a \<mapsto> u\<lparr>currentPeer := Some b\<rparr>, b \<mapsto> v\<lparr>currentPeer := Some a\<rparr>),
                  waitingUsers := \<lparr> male = removeAll b (removeAll a (male (waitingUsers s))),
                                    female = removeAll b (removeAll a (female (waitingUsers s))),
                                    both = removeAll b (removeAll a (both (waitingUsers s))) \<rparr> \<rparr>)"
    using i u v by (auto simp: inv_def users_wf_def)
  show "sym_map (activeUsers (s\<lparr> activeUsers := (activeUsers s)(a \<mapsto> u\<lparr>currentPeer := Some b\<rparr>, b \<mapsto> v\<lparr>currentPeer := Some a\<rparr>),
                  waitingUsers := \<lparr> male = removeAll b (removeAll a (male (waitingUsers s))),
                                    female = removeAll b (removeAll a (female (waitingUsers s))),
                                    both = removeAll b (removeAll a (both (waitingUsers s))) \<rparr> \<rparr>))"
    using i u v ne ane by (simp add: inv_def sym_map_pair)
  show "pools_wf (s\<lparr> activeUsers := (activeUsers s)(a \<mapsto> u\<lparr>currentPeer := Some b\<rparr>, b \<mapsto> v\<lparr>currentPeer := Some a\<rparr>),
                  waitingUsers := \<lparr> male = removeAll b (removeAll a (male (waitingUsers s))),
                                    female = removeAll b (removeAll a (female (waitingUsers s))),
                                    both = removeAll b (removeAll a (both (waitingUsers s))) \<rparr> \<rparr>)"
    using i by (auto simp: inv_def pools_wf_def distinct_removeAll)
  show "store_wf (s\<lparr> activeUsers := (activeUsers s)(a \<mapsto> u\<lparr>currentPeer := Some b\<rparr>, b \<mapsto> v\<lparr>currentPeer := Some a\<rparr>),
                  waitingUsers := \<lparr> male = removeAll b (removeAll a (male (waitingUsers s))),
                                    female = removeAll b (removeAll a (female (waitingUsers s))),
                                    both = removeAll b (removeAll a (both (waitingUsers s))) \<rparr> \<rparr>)"
    using i by (auto simp: inv_def store_wf_def)
qed

lemma find_peer_match_throw:
  assumes "findMatch s1 sid = Inl e"
  shows "find_peer_match s1 sid usr out1 = \<lparr> post = s1, emitted = out1, thrown = Some e \<rparr>"
  using assms by (simp add: find_peer_match_def)

lemma find_peer_match_commit:
  assumes m: "findMatch s1 sid = Inr (Some m)" "m \<noteq> []"
    and v: "activeUsers s1 m = Some v" and ne: "m \<noteq> sid"
  shows "find_peer_match s1 sid usr out1 =
     completed (s1\<lparr> activeUsers := (activeUsers s1)(sid \<mapsto> usr\<lparr>currentPeer := Some m\<rparr>, m \<mapsto> v\<lparr>currentPeer := Some sid\<rparr>),
                   waitingUsers := \<lparr> male = removeAll m (removeAll sid (male (waitingUsers s1))),
                                    female = removeAll m (removeAll sid (female (waitingUsers s1))),
                                    both = removeAll m (removeAll sid (both (waitingUsers s1))) \<rparr> \<rparr>)
               (out1 @ [(sid, ''ready'', None), (m, ''ready'', None)])"
  using assms
  by (simp add: find_peer_match_def Let_def truthy_def set_currentPeer_def
      removeFromWaitingPools_def set_delete_def)

lemma find_peer_match_enqueue:
  assumes "findMatch s1 sid = Inr r" and "truthy r = None"
  shows "find_peer_match s1 sid usr out1 = completed (addToWaitingPool s1 sid) out1"
  using assms by (simp add: find_peer_match_def)

text \<open>
  After the teardown the second block keeps the invariant, and it throws exactly when
  \<open>findMatch\<close> does.
\<close>

lemma find_peer_match_inv:
  assumes i: "inv s1" and u: "activeUsers s1 sid = Some (usr\<lparr>currentPeer := None\<rparr>)"
  shows "inv (post (find_peer_match s1 sid usr out1)) \<and>
         thrown (find_peer_match s1 sid usr out1)
           = (case findMatch s1 sid of Inl e \<Rightarrow> Some e | Inr r \<Rightarrow> None)"
proof (cases "findMatch s1 sid")
  case (Inl e)
  then show ?thesis using i by (simp add: find_peer_match_throw)
next
  case (Inr r)
  show ?thesis
  proof (cases r)
    case None
    with Inr have "find_peer_match s1 sid usr out1 = completed (addToWaitingPool s1 sid) out1"
      by (simp add: find_peer_match_enqueue truthy_def)
    then show ?thesis using inv_enqueue[OF i u] Inr by (simp add: completed_def)
  next
    case (Some m)
    with Inr have f: "findMatch s1 sid = Inr (Some m)" by simp
    from inv_pool_member[OF i f] obtain v where
      ne: "m \<noteq> sid" "m \<noteq> []" and v: "activeUsers s1 m = Some v" "currentPeer v = None" by blast
    have "inv (s1\<lparr> activeUsers := (activeUsers s1)(sid \<mapsto> usr\<lparr>currentPeer := None\<rparr>\<lparr>currentPeer := Some m\<rparr>, m \<mapsto> v\<lparr>currentPeer := Some sid\<rparr>),
                   waitingUsers := \<lparr> male = removeAll m (removeAll sid (male (waitingUsers s1))),
                                    female = removeAll m (removeAll sid (female (waitingUsers s1))),
                                    both = removeAll m (removeAll sid (both (waitingUsers s1))) \<rparr> \<rparr>)"
      by (rule inv_commit[OF i u _ v]) (use ne in simp_all)
    then show ?thesis
      by (simp add: find_peer_match_commit[OF f ne(2) v(1) ne(1)] completed_def f)
  qed
qed

lemma find_peer_inv:
  assumes i: "inv s"
  shows "inv (post (find_peer s sid)) \<and>
         thrown (find_peer s sid)
           = (case activeUsers s sid of
                None \<Rightarrow> None
              | Some usr \<Rightarrow>
                  (case findMatch (fst (find_peer_teardown s sid usr)) sid of
                     Inl e \<Rightarrow> Some e | Inr r \<Rightarrow> None))"
proof (cases "activeUsers s sid")
  case None
  then show ?thesis using i by (simp add: find_peer_def completed_def)
next
  case (Some u)
  obtain s1 out1 where td: "find_peer_teardown s sid u = (s1, out1)" by (cases "find_peer_teardown s sid u")
  from find_peer_teardown_inv[OF i Some] td
  have i1: "inv s1" and u1: "activeUsers s1 sid = Some (u\<lparr>currentPeer := None\<rparr>)" by simp_all
  have "find_peer s sid = find_peer_match s1 sid u out1"
    using Some td by (simp add: find_peer_def)
  then show ?thesis using find_peer_match_inv[OF i1 u1] Some td by simp
qed

lemma inv_handle: "inv s \<Longrightarrow> admissible s e \<Longrightarrow> inv (post (handle s e))"
  by (cases e)
     (simp_all add: inv_connection inv_update_preferences find_peer_inv offer_def answer_def
        ice_candidate_def chat_message_def post_relay inv_report_user inv_disconnect)

lemma reachable_inv: "reachable s \<Longrightarrow> inv s"
  by (induction rule: reachable.induct) (simp_all add: inv_initial inv_handle)

lemma reachable_run: "reachable s \<Longrightarrow> admissible_trace s es \<Longrightarrow> reachable (run s es)"
  by (induction es arbitrary: s) (auto intro: reachable_step)

lemma run_snoc: "run s (es @ [e]) = post (handle (run s es) e)"
  by (induction es arbitrary: s) simp_all

lemma admissible_trace_snoc:
  "admissible_trace s (es @ [e]) \<longleftrightarrow> admissible_trace s es \<and> admissible (run s es) e"
  by (induction es arbitrary: s) auto

text \<open>The reachable states are the results of the admissible runs from the empty state.\<close>

lemma reachable_iff_run:
  "reachable s \<longleftrightarrow> (\<exists>es. admissible_trace initial_state es \<and> s = run initial_state es)"
proof
  assume "reachable s"
  then show "\<exists>es. admissible_trace initial_state es \<and> s = run initial_state es"
  proof (induction rule: reachable.induct)
    case reachable_init
    have "admissible_trace initial_state [] \<and> initial_state = run initial_state []" by simp
    then show ?case by blast
  next
    case (reachable_step s e)
    then obtain es where es: "admissible_trace initial_state es" "s = run initial_state es"
      by blast
    with reachable_step.hyps(2)
    have "admissible_trace initial_state (es @ [e])
        \<and> post (handle s e) = run initial_state (es @ [e])"
      by (simp add: run_snoc admissible_trace_snoc)
    then show ?case by blast
  qed
next
  assume "\<exists>es. admissible_trace initial_state es \<and> s = run initial_state es"
  then show "reachable s" by (auto intro: reachable_run reachable_init)
qed

section \<open>Evaluating the sample runs\<close>

lemmas eval_defs = connection_def update_preferences_def find_peer_def find_peer_teardown_def
  find_peer_match_def findMatch_def relay_def report_user_def disconnect_def completed_def
  clear_peer_def set_currentPeer_def removeFromWaitingPools_def addToWaitingPool_def
  set_add_def set_delete_def truthy_def createReport_def js_incr_def
  initial_state_def Let_def

lemma waiting_admissible: "admissible_trace initial_state trace_waiting"
  by (simp add: trace_waiting_def eval_defs)

lemma waiting_state:
  "run initial_state trace_waiting =
     \<lparr> activeUsers = [''a'' \<mapsto> default_user ''a'', ''b'' \<mapsto> default_user ''b''],
       waitingUsers = \<lparr> male = [], female = [], both = [''a''] \<rparr>,
       storage = \<lparr> reports = Map.empty, reportIdCounter = 1 \<rparr> \<rparr>"
  by (simp add: trace_waiting_def eval_defs default_user_def)

lemma paired_admissible: "admissible_trace initial_state trace_paired"
  by (simp add: trace_paired_def eval_defs)

lemma paired_state:
  "run initial_state trace_paired =
     \<lparr> activeUsers = [''a'' \<mapsto> (default_user ''a'')\<lparr>currentPeer := Some ''b''\<rparr>,
                       ''b'' \<mapsto> (default_user ''b'')\<lparr>currentPeer := Some ''a''\<rparr>],
       waitingUsers = \<lparr> male = [], female = [], both = [] \<rparr>,
       storage = \<lparr> reports = Map.empty, reportIdCounter = 1 \<rparr> \<rparr>"
  by (simp add: trace_paired_def eval_defs default_user_def fun_upd_twist)

lemma male_seeker_admissible: "admissible_trace initial_state trace_male_seeker"
  by (simp add: trace_male_seeker_def eval_defs)

lemma male_seeker_state:
  "run initial_state trace_male_seeker =
     \<lparr> activeUsers = [''a'' \<mapsto> (default_user ''a'')\<lparr>preferences :=
                          Some \<lparr> pref_gender = ''male'', pref_country = ''any'' \<rparr>\<rparr>,
                       ''b'' \<mapsto> default_user ''b''],
       waitingUsers = \<lparr> male = [], female = [], both = [''b''] \<rparr>,
       storage = \<lparr> reports = Map.empty, reportIdCounter = 1 \<rparr> \<rparr>"
  by (simp add: trace_male_seeker_def eval_defs default_user_def fun_upd_twist)

lemma null_prefs_admissible: "admissible_trace initial_state trace_null_prefs"
  by (simp add: trace_null_prefs_def eval_defs)

lemma null_prefs_state:
  "run initial_state trace_null_prefs =
     \<lparr> activeUsers = [''a'' \<mapsto> (default_user ''a'')\<lparr>preferences := None\<rparr>],
       waitingUsers = \<lparr> male = [], female = [], both = [] \<rparr>,
       storage = \<lparr> reports = Map.empty, reportIdCounter = 1 \<rparr> \<rparr>"
  by (simp add: trace_null_prefs_def eval_defs default_user_def)

lemma null_candidate_admissible: "admissible_trace initial_state trace_null_candidate"
  by (simp add: trace_null_candidate_def eval_defs)

lemma null_candidate_state:
  "run initial_state trace_null_candidate =
     \<lparr> activeUsers = [''a'' \<mapsto> (default_user ''a'')\<lparr>preferences := None\<rparr>,
                       ''b'' \<mapsto> (default_user ''b'')\<lparr>preferences :=
                          Some \<lparr> pref_gender = ''both'', pref_country = ''DE'' \<rparr>\<rparr>],
       waitingUsers = \<lparr> male = [], female = [], both = [''a''] \<rparr>,
       storage = \<lparr> reports = Map.empty, reportIdCounter = 1 \<rparr> \<rparr>"
  by (simp add: trace_null_candidate_def eval_defs default_user_def fun_upd_twist)

lemma waiting_reachable: "reachable (run initial_state trace_waiting)"
  by (rule reachable_run[OF reachable_init waiting_admissible])

lemma paired_reachable: "reachable (run initial_state trace_paired)"
  by (rule reachable_run[OF reachable_init paired_admissible])

lemma null_prefs_reachable: "reachable (run initial_state trace_null_prefs)"
  by (rule reachable_run[OF reachable_init null_prefs_admissible])

subsection \<open>The long run of reports\<close>










section \<open>The claims\<close>

subsection \<open>C1: pairing symmetry\<close>

text \<open>
  Claim C1. In every state reached from the empty state by handling events (connections
  carrying a fresh, non-empty identifier, any other event for any identifier), for every
  two registered sessions A and B: A's \<open>currentPeer\<close> is B's id if and only if B's
  \<open>currentPeer\<close> is A's id.
\<close>

theorem pairing_symmetry:
  assumes "reachable s" and "activeUsers s a = Some ua" and "activeUsers s b = Some ub"
  shows "currentPeer ua = Some (user_id ub) \<longleftrightarrow> currentPeer ub = Some (user_id ua)"
proof -
  have i: "inv s" by (rule reachable_inv[OF assms(1)])
  have ida: "user_id ua = a" and idb: "user_id ub = b"
    using i assms(2,3) by (auto simp: inv_def users_wf_def)
  have "currentPeer ua = Some b \<Longrightarrow> currentPeer ub = Some a"
    using inv_peer[OF i assms(2)] assms(3) by auto
  moreover have "currentPeer ub = Some a \<Longrightarrow> currentPeer ua = Some b"
    using inv_peer[OF i assms(3)] assms(2) by auto
  ultimately show ?thesis unfolding ida idb by blast
qed

theorem pairing_symmetry_witness:
  "reachable (run initial_state trace_paired)
   \<and> activeUsers (run initial_state trace_paired) ''a''
       = Some ((default_user ''a'')\<lparr>currentPeer := Some ''b''\<rparr>)
   \<and> activeUsers (run initial_state trace_paired) ''b''
       = Some ((default_user ''b'')\<lparr>currentPeer := Some ''a''\<rparr>)
   \<and> (currentPeer ((default_user ''a'')\<lparr>currentPeer := Some ''b''\<rparr>)
         = Some (user_id ((default_user ''b'')\<lparr>currentPeer := Some ''a''\<rparr>))
       \<longleftrightarrow> currentPeer ((default_user ''b'')\<lparr>currentPeer := Some ''a''\<rparr>)
         = Some (user_id ((default_user ''a'')\<lparr>currentPeer := Some ''b''\<rparr>)))"
proof -
  have a: "activeUsers (run initial_state trace_paired) ''a''
       = Some ((default_user ''a'')\<lparr>currentPeer := Some ''b''\<rparr>)"
    by (simp add: paired_state)
  have b: "activeUsers (run initial_state trace_paired) ''b''
       = Some ((default_user ''b'')\<lparr>currentPeer := Some ''a''\<rparr>)"
    by (simp add: paired_state)
  from pairing_symmetry[OF paired_reachable a b] paired_reachable a b show ?thesis by blast
qed

subsection \<open>C2: the match engine\<close>

lemma first_valid_filter:
  "first_valid sid xs = (case filter (\<lambda>c. c \<noteq> sid) xs of [] \<Rightarrow> None | c # _ \<Rightarrow> Some c)"
  by (induction xs) simp_all

lemma filter_country_spec:
  "filter_country s region xs =
     (if list_ex (no_preferences s) xs then Inl (TypeError ''country'')
      else Inr (filter (spec_region_kept s region) xs))"
proof (induction xs)
  case Nil
  show ?case by simp
next
  case (Cons c xs)
  show ?case
  proof (cases "activeUsers s c")
    case None
    then have "\<not> no_preferences s c" and "\<not> spec_region_kept s region c"
      by (simp_all add: no_preferences_def spec_region_kept_def)
    with None Cons.IH show ?thesis by simp
  next
    case (Some m)
    show ?thesis
    proof (cases "preferences m")
      case None
      with Some have "no_preferences s c" by (simp add: no_preferences_def)
      with Some None show ?thesis by simp
    next
      case (Some mp)
      with \<open>activeUsers s c = Some m\<close>
      have "\<not> no_preferences s c"
        and "spec_region_kept s region c
               \<longleftrightarrow> pref_country mp = region \<or> pref_country mp = ''any''"
        by (simp_all add: no_preferences_def spec_region_kept_def)
      with \<open>activeUsers s c = Some m\<close> Some Cons.IH show ?thesis by simp
    qed
  qed
qed

text \<open>
  Claim C2, as the code has it. \<open>findMatch\<close> returns none for an unregistered seeker. For
  a registered seeker whose stored preferences is \<open>null\<close> it throws a \<open>TypeError\<close>. For a
  registered seeker with preferences it takes the candidate list of the desired category
  and, when the seeker's region is \<open>any\<close>, drops the seeker's own identifier and returns
  the first survivor in iteration order, or none; when the region is not \<open>any\<close> it first
  keeps exactly the candidates whose own stored region is the seeker's or \<open>any\<close>, unless
  the list holds a registered candidate whose stored preferences is \<open>null\<close>: then it
  throws a \<open>TypeError\<close>. Wherever it returns, it returns what the algorithm in the
  specification's words returns.
\<close>

theorem findMatch_spec_or_throws:
  "(activeUsers s seekerId = None \<longrightarrow> findMatch s seekerId = Inr None)
   \<and> (\<forall>seeker. activeUsers s seekerId = Some seeker \<longrightarrow> preferences seeker = None
         \<longrightarrow> findMatch s seekerId = Inl (TypeError ''gender''))
   \<and> (\<forall>seeker wanted. activeUsers s seekerId = Some seeker \<longrightarrow> preferences seeker = Some wanted
         \<longrightarrow> findMatch s seekerId =
              (if pref_country wanted \<noteq> ''any'' \<and> unreadable_candidate s (pref_gender wanted)
               then Inl (TypeError ''country'')
               else Inr (findMatch_spec s seekerId)))"
proof (intro conjI allI impI)
  assume "activeUsers s seekerId = None"
  then show "findMatch s seekerId = Inr None" by (simp add: findMatch_def)
next
  fix seeker
  assume "activeUsers s seekerId = Some seeker" and "preferences seeker = None"
  then show "findMatch s seekerId = Inl (TypeError ''gender'')" by (simp add: findMatch_def)
next
  fix seeker wanted
  assume u: "activeUsers s seekerId = Some seeker" and p: "preferences seeker = Some wanted"
  show "findMatch s seekerId =
          (if pref_country wanted \<noteq> ''any'' \<and> unreadable_candidate s (pref_gender wanted)
           then Inl (TypeError ''country'')
           else Inr (findMatch_spec s seekerId))"
  proof (cases "pref_country wanted = ''any''")
    case True
    with u p show ?thesis
      by (simp add: findMatch_def findMatch_spec_def Let_def first_valid_filter spec_candidates_def)
  next
    case False
    with u p show ?thesis
      by (simp add: findMatch_def findMatch_spec_def Let_def first_valid_filter
          spec_candidates_def filter_country_spec unreadable_candidate_def)
  qed
qed

theorem findMatch_spec_or_throws_witness:
  "activeUsers (run initial_state trace_waiting) ''b'' = Some (default_user ''b'')
   \<and> preferences (default_user ''b'') = Some \<lparr> pref_gender = ''both'', pref_country = ''any'' \<rparr>
   \<and> findMatch (run initial_state trace_waiting) ''b''
        = Inr (findMatch_spec (run initial_state trace_waiting) ''b'')
   \<and> findMatch_spec (run initial_state trace_waiting) ''b'' = Some ''a''
   \<and> activeUsers (run initial_state trace_null_prefs) ''a''
        = Some ((default_user ''a'')\<lparr>preferences := None\<rparr>)
   \<and> findMatch (run initial_state trace_null_prefs) ''a'' = Inl (TypeError ''gender'')
   \<and> activeUsers initial_state ''a'' = None
   \<and> findMatch initial_state ''a'' = Inr None"
proof -
  have b: "activeUsers (run initial_state trace_waiting) ''b'' = Some (default_user ''b'')"
    by (simp add: waiting_state)
  have pb: "preferences (default_user ''b'') = Some \<lparr> pref_gender = ''both'', pref_country = ''any'' \<rparr>"
    by (simp add: default_user_def)
  have sp: "findMatch_spec (run initial_state trace_waiting) ''b'' = Some ''a''"
    by (simp add: waiting_state findMatch_spec_def spec_candidates_def default_user_def)
  have a: "activeUsers (run initial_state trace_null_prefs) ''a''
        = Some ((default_user ''a'')\<lparr>preferences := None\<rparr>)"
    by (simp add: null_prefs_state)
  have n: "activeUsers initial_state ''a'' = None" by (simp add: initial_state_def)
  from findMatch_spec_or_throws[of "run initial_state trace_waiting" "''b''"] b pb
  have 1: "findMatch (run initial_state trace_waiting) ''b''
        = Inr (findMatch_spec (run initial_state trace_waiting) ''b'')"
    by simp
  from findMatch_spec_or_throws[of "run initial_state trace_null_prefs" "''a''"] a
  have 2: "findMatch (run initial_state trace_null_prefs) ''a'' = Inl (TypeError ''gender'')"
    by simp
  from findMatch_spec_or_throws[of initial_state "''a''"] n
  have 3: "findMatch initial_state ''a'' = Inr None" by simp
  from b pb sp a n 1 2 3 show ?thesis by blast
qed

text \<open>
  Where the claim as the specification words it fails: in two reachable states
  \<open>findMatch\<close> does not return at all. The seeker \<open>a\<close> has sent \<open>null\<close> as its
  preferences; and the seeker \<open>b\<close> filters by country while \<open>a\<close>, who has sent \<open>null\<close>,
  waits in the pool.
\<close>

theorem findMatch_null_preferences_counterexample:
  "admissible_trace initial_state trace_null_prefs
   \<and> activeUsers (run initial_state trace_null_prefs) ''a''
        = Some ((default_user ''a'')\<lparr>preferences := None\<rparr>)
   \<and> findMatch (run initial_state trace_null_prefs) ''a'' = Inl (TypeError ''gender'')
   \<and> findMatch (run initial_state trace_null_prefs) ''a''
        \<noteq> Inr (findMatch_spec (run initial_state trace_null_prefs) ''a'')
   \<and> admissible_trace initial_state trace_null_candidate
   \<and> activeUsers (run initial_state trace_null_candidate) ''b''
        = Some ((default_user ''b'')\<lparr>preferences :=
             Some \<lparr> pref_gender = ''both'', pref_country = ''DE'' \<rparr>\<rparr>)
   \<and> findMatch (run initial_state trace_null_candidate) ''b'' = Inl (TypeError ''country'')
   \<and> findMatch (run initial_state trace_null_candidate) ''b''
        \<noteq> Inr (findMatch_spec (run initial_state trace_null_candidate) ''b'')"
proof -
  have 1: "findMatch (run initial_state trace_null_prefs) ''a'' = Inl (TypeError ''gender'')"
    by (simp add: null_prefs_state findMatch_def default_user_def)
  have 2: "findMatch (run initial_state trace_null_candidate) ''b'' = Inl (TypeError ''country'')"
    by (simp add: null_candidate_state findMatch_def default_user_def)
  have a: "activeUsers (run initial_state trace_null_prefs) ''a''
        = Some ((default_user ''a'')\<lparr>preferences := None\<rparr>)"
    by (simp add: null_prefs_state)
  have b: "activeUsers (run initial_state trace_null_candidate) ''b''
        = Some ((default_user ''b'')\<lparr>preferences :=
             Some \<lparr> pref_gender = ''both'', pref_country = ''DE'' \<rparr>\<rparr>)"
    by (simp add: null_candidate_state)
  from 1 have 3: "findMatch (run initial_state trace_null_prefs) ''a''
        \<noteq> Inr (findMatch_spec (run initial_state trace_null_prefs) ''a'')" by simp
  from 2 have 4: "findMatch (run initial_state trace_null_candidate) ''b''
        \<noteq> Inr (findMatch_spec (run initial_state trace_null_candidate) ''b'')" by simp
  from null_prefs_admissible null_candidate_admissible a b 1 2 3 4 show ?thesis by blast
qed

subsection \<open>C3: paired sessions are never queued\<close>

text \<open>
  Claim C3. In every reachable state a registered session whose \<open>currentPeer\<close> is set
  is in none of the three waiting pools: its pool membership is 0.
\<close>

theorem paired_never_queued:
  assumes "reachable s" and "activeUsers s a = Some u" and "currentPeer u \<noteq> None"
  shows "a \<notin> set (male (waitingUsers s)) \<and> a \<notin> set (female (waitingUsers s))
         \<and> a \<notin> set (both (waitingUsers s)) \<and> pool_membership s a = 0"
proof -
  have i: "inv s" by (rule reachable_inv[OF assms(1)])
  then have "male (waitingUsers s) = []" "female (waitingUsers s) = []"
    and "\<forall>x \<in> set (both (waitingUsers s)). \<exists>u. activeUsers s x = Some u \<and> currentPeer u = None"
    by (simp_all add: inv_def pools_wf_def)
  with assms(2,3) show ?thesis by (auto simp: pool_membership_def)
qed

theorem paired_never_queued_witness:
  "reachable (run initial_state trace_paired)
   \<and> activeUsers (run initial_state trace_paired) ''a''
       = Some ((default_user ''a'')\<lparr>currentPeer := Some ''b''\<rparr>)
   \<and> currentPeer ((default_user ''a'')\<lparr>currentPeer := Some ''b''\<rparr>) \<noteq> None
   \<and> pool_membership (run initial_state trace_paired) ''a'' = 0"
proof -
  have a: "activeUsers (run initial_state trace_paired) ''a''
       = Some ((default_user ''a'')\<lparr>currentPeer := Some ''b''\<rparr>)"
    by (simp add: paired_state)
  have c: "currentPeer ((default_user ''a'')\<lparr>currentPeer := Some ''b''\<rparr>) \<noteq> None" by simp
  from paired_never_queued[OF paired_reachable a c] paired_reachable a c show ?thesis by blast
qed

subsection \<open>C4: pool exclusivity\<close>

lemma addToWaitingPool_member:
  assumes "activeUsers s sid = Some u"
  shows "sid \<in> set (male (waitingUsers (addToWaitingPool s sid))) \<longleftrightarrow> gender u = ''male''"
    and "sid \<in> set (female (waitingUsers (addToWaitingPool s sid)))
           \<longleftrightarrow> gender u \<noteq> ''male'' \<and> gender u = ''female''"
    and "sid \<in> set (both (waitingUsers (addToWaitingPool s sid)))
           \<longleftrightarrow> gender u \<noteq> ''male'' \<and> gender u \<noteq> ''female''"
  using assms by (auto simp: addToWaitingPool_def Let_def set_add_def set_delete_def)

text \<open>
  Claim C4. \<open>addToWaitingPool\<close>, from any state whatever, leaves a registered session in
  exactly the partition of its own gender (\<open>male\<close>, \<open>female\<close>, anything else in
  \<open>both\<close>) and in no other, because it deletes the identifier from all three first; and
  in every reachable state an identifier is in at most one partition.
\<close>

theorem pool_exclusivity:
  "(activeUsers s sid = Some u \<longrightarrow>
      (sid \<in> set (male (waitingUsers (addToWaitingPool s sid))) \<longleftrightarrow> gender u = ''male'')
      \<and> (sid \<in> set (female (waitingUsers (addToWaitingPool s sid)))
            \<longleftrightarrow> gender u \<noteq> ''male'' \<and> gender u = ''female'')
      \<and> (sid \<in> set (both (waitingUsers (addToWaitingPool s sid)))
            \<longleftrightarrow> gender u \<noteq> ''male'' \<and> gender u \<noteq> ''female'')
      \<and> pool_membership (addToWaitingPool s sid) sid = 1)
   \<and> (reachable t \<longrightarrow> pool_membership t x \<le> 1)"
proof (intro conjI impI)
  assume u: "activeUsers s sid = Some u"
  note m = addToWaitingPool_member[OF u]
  show "sid \<in> set (male (waitingUsers (addToWaitingPool s sid))) \<longleftrightarrow> gender u = ''male''"
    by (rule m)
  show "sid \<in> set (female (waitingUsers (addToWaitingPool s sid)))
            \<longleftrightarrow> gender u \<noteq> ''male'' \<and> gender u = ''female''"
    by (rule m)
  show "sid \<in> set (both (waitingUsers (addToWaitingPool s sid)))
            \<longleftrightarrow> gender u \<noteq> ''male'' \<and> gender u \<noteq> ''female''"
    by (rule m)
  show "pool_membership (addToWaitingPool s sid) sid = 1"
    unfolding pool_membership_def m by auto
next
  assume "reachable t"
  then have "inv t" by (rule reachable_inv)
  then have "male (waitingUsers t) = []" "female (waitingUsers t) = []"
    by (simp_all add: inv_def pools_wf_def)
  then show "pool_membership t x \<le> 1" by (simp add: pool_membership_def)
qed

theorem pool_exclusivity_witness:
  "activeUsers stray_male_state ''m'' = Some ((default_user ''m'')\<lparr>gender := ''male''\<rparr>)
   \<and> pool_membership stray_male_state ''m'' = 2
   \<and> waitingUsers (addToWaitingPool stray_male_state ''m'')
        = \<lparr> male = [''m''], female = [], both = [''x''] \<rparr>
   \<and> pool_membership (addToWaitingPool stray_male_state ''m'') ''m'' = 1
   \<and> reachable (run initial_state trace_waiting)
   \<and> pool_membership (run initial_state trace_waiting) ''a'' \<le> 1"
proof -
  have u: "activeUsers stray_male_state ''m'' = Some ((default_user ''m'')\<lparr>gender := ''male''\<rparr>)"
    by (simp add: stray_male_state_def)
  have before: "pool_membership stray_male_state ''m'' = 2"
    by (simp add: stray_male_state_def pool_membership_def)
  have after: "waitingUsers (addToWaitingPool stray_male_state ''m'')
        = \<lparr> male = [''m''], female = [], both = [''x''] \<rparr>"
    by (simp add: stray_male_state_def addToWaitingPool_def Let_def set_add_def set_delete_def
        default_user_def)
  from pool_exclusivity[of stray_male_state "''m''" "(default_user ''m'')\<lparr>gender := ''male''\<rparr>"
      "run initial_state trace_waiting" "''a''"]
    u before after waiting_reachable
  show ?thesis by blast
qed

subsection \<open>C5: reports\<close>





subsection \<open>C6: the relays\<close>

lemma relay_idle:
  assumes "activeUsers s sid = None \<or> (\<exists>u. activeUsers s sid = Some u \<and> currentPeer u = None)"
  shows "relay kind s sid pl = \<lparr> post = s, emitted = [], thrown = None \<rparr>"
  using assms by (auto simp: relay_def completed_def truthy_def)

lemma relay_paired:
  assumes "activeUsers s sid = Some u" and "currentPeer u = Some p" and "p \<noteq> []"
  shows "relay kind s sid pl = \<lparr> post = s, emitted = [(p, kind, Some pl)], thrown = None \<rparr>"
  using assms by (simp add: relay_def completed_def truthy_def)

text \<open>
  Claim C6. In a reachable state, for offer, answer, ice-candidate and chat-message alike:
  from an unregistered or unpaired sender nothing is emitted, nothing is thrown and the
  state is unchanged; from a paired sender the payload goes, unmodified and under the same
  event name, to the sender's current peer and nowhere else, and the state is unchanged.
\<close>

theorem relay_semantics:
  assumes "reachable s"
    and "(h, kind) \<in> {(offer, ''offer''), (answer, ''answer''),
                       (ice_candidate, ''ice-candidate''), (chat_message, ''chat-message'')}"
  shows "(activeUsers s sid = None \<or> (\<exists>u. activeUsers s sid = Some u \<and> currentPeer u = None)
            \<longrightarrow> h s sid pl = \<lparr> post = s, emitted = [], thrown = None \<rparr>)
       \<and> (\<forall>u p. activeUsers s sid = Some u \<and> currentPeer u = Some p
            \<longrightarrow> h s sid pl = \<lparr> post = s, emitted = [(p, kind, Some pl)], thrown = None \<rparr>)"
proof -
  have i: "inv s" by (rule reachable_inv[OF assms(1)])
  have h: "h = relay kind"
    using assms(2) by (auto simp: offer_def answer_def ice_candidate_def chat_message_def)
  have "relay kind s sid pl = \<lparr> post = s, emitted = [(p, kind, Some pl)], thrown = None \<rparr>"
    if "activeUsers s sid = Some u \<and> currentPeer u = Some p" for u p
    using that inv_peer[OF i, of sid u p] by (intro relay_paired) auto
  then show ?thesis unfolding h by (auto simp: relay_idle)
qed

theorem relay_semantics_witness:
  "reachable (run initial_state trace_paired)
   \<and> activeUsers (run initial_state trace_paired) ''a''
       = Some ((default_user ''a'')\<lparr>currentPeer := Some ''b''\<rparr>)
   \<and> chat_message (run initial_state trace_paired) ''a'' ''hi''
       = \<lparr> post = run initial_state trace_paired,
           emitted = [(''b'', ''chat-message'', Some ''hi'')], thrown = None \<rparr>
   \<and> reachable (run initial_state trace_waiting)
   \<and> activeUsers (run initial_state trace_waiting) ''b'' = Some (default_user ''b'')
   \<and> offer (run initial_state trace_waiting) ''b'' ''sdp''
       = \<lparr> post = run initial_state trace_waiting, emitted = [], thrown = None \<rparr>"
proof -
  have a: "activeUsers (run initial_state trace_paired) ''a''
       = Some ((default_user ''a'')\<lparr>currentPeer := Some ''b''\<rparr>)"
    by (simp add: paired_state)
  have b: "activeUsers (run initial_state trace_waiting) ''b'' = Some (default_user ''b'')"
    by (simp add: waiting_state)
  have k1: "(chat_message, ''chat-message'') \<in> {(offer, ''offer''), (answer, ''answer''),
                       (ice_candidate, ''ice-candidate''), (chat_message, ''chat-message'')}"
    by simp
  have k2: "(offer, ''offer'') \<in> {(offer, ''offer''), (answer, ''answer''),
                       (ice_candidate, ''ice-candidate''), (chat_message, ''chat-message'')}"
    by simp
  from relay_semantics[OF paired_reachable k1, of "''a''" "''hi''"] a
  have 1: "chat_message (run initial_state trace_paired) ''a'' ''hi''
       = \<lparr> post = run initial_state trace_paired,
           emitted = [(''b'', ''chat-message'', Some ''hi'')], thrown = None \<rparr>"
    by simp
  from relay_semantics[OF waiting_reachable k2, of "''b''" "''sdp''"] b
  have 2: "offer (run initial_state trace_waiting) ''b'' ''sdp''
       = \<lparr> post = run initial_state trace_waiting, emitted = [], thrown = None \<rparr>"
    by (simp add: default_user_def)
  from paired_reachable waiting_reachable a b 1 2 show ?thesis by blast
qed

subsection \<open>C7: disconnect is idempotent\<close>

lemma disconnect_removes:
  "activeUsers (post (disconnect s sid)) sid = None"
  "sid \<notin> set (male (waitingUsers (post (disconnect s sid))))"
  "sid \<notin> set (female (waitingUsers (post (disconnect s sid))))"
  "sid \<notin> set (both (waitingUsers (post (disconnect s sid))))"
  by (simp_all add: disconnect_def Let_def completed_def split: prod.splits)

lemma removeFromWaitingPools_absent:
  assumes "sid \<notin> set (male (waitingUsers s))" "sid \<notin> set (female (waitingUsers s))"
    "sid \<notin> set (both (waitingUsers s))"
  shows "removeFromWaitingPools s sid = s"
  using assms by (simp add: removeFromWaitingPools_def set_delete_def)

text \<open>
  Claim C7. For every identifier and every state, a second disconnect right after the
  first leaves the state of the first (registry, pools and store), emits nothing, in
  particular no second \<open>peer-disconnected\<close>, and neither call throws.
\<close>

theorem disconnect_idempotent:
  "post (disconnect (post (disconnect s sid)) sid) = post (disconnect s sid)
   \<and> emitted (disconnect (post (disconnect s sid)) sid) = []
   \<and> thrown (disconnect (post (disconnect s sid)) sid) = None
   \<and> thrown (disconnect s sid) = None"
proof -
  let ?s' = "post (disconnect s sid)"
  have "disconnect ?s' sid = completed (removeFromWaitingPools ?s' sid) []"
    by (rule disconnect_absent) (rule disconnect_removes)
  also have "removeFromWaitingPools ?s' sid = ?s'"
    by (rule removeFromWaitingPools_absent) (rule disconnect_removes)+
  finally have "disconnect ?s' sid = completed ?s' []" .
  moreover have "thrown (disconnect s sid) = None"
    by (simp add: disconnect_def Let_def completed_def split: prod.splits)
  ultimately show ?thesis by (simp add: completed_def)
qed

subsection \<open>C8: update-preferences changes the preferences only\<close>

text \<open>
  Claim C8. update-preferences emits nothing, throws nothing, leaves the pools and the
  report store as they are, leaves every session's \<open>currentPeer\<close>, gender and id as they
  are, and leaves every other session untouched; for an unregistered identifier the state
  is unchanged, for a registered one the stored preferences are the new ones.
\<close>

theorem update_preferences_frame:
  "emitted (update_preferences s sid prefs) = []
   \<and> thrown (update_preferences s sid prefs) = None
   \<and> waitingUsers (post (update_preferences s sid prefs)) = waitingUsers s
   \<and> storage (post (update_preferences s sid prefs)) = storage s
   \<and> (\<forall>x. map_option currentPeer (activeUsers (post (update_preferences s sid prefs)) x)
            = map_option currentPeer (activeUsers s x))
   \<and> (\<forall>x. map_option gender (activeUsers (post (update_preferences s sid prefs)) x)
            = map_option gender (activeUsers s x))
   \<and> (\<forall>x. map_option user_id (activeUsers (post (update_preferences s sid prefs)) x)
            = map_option user_id (activeUsers s x))
   \<and> (\<forall>x. x \<noteq> sid \<longrightarrow> activeUsers (post (update_preferences s sid prefs)) x = activeUsers s x)
   \<and> (activeUsers s sid = None \<longrightarrow> post (update_preferences s sid prefs) = s)
   \<and> (\<forall>u. activeUsers s sid = Some u \<longrightarrow>
          activeUsers (post (update_preferences s sid prefs)) sid = Some (u\<lparr>preferences := prefs\<rparr>))"
  by (cases "activeUsers s sid") (simp_all add: update_preferences_def completed_def)

theorem update_preferences_frame_witness:
  "activeUsers (run initial_state trace_waiting) ''a'' = Some (default_user ''a'')
   \<and> activeUsers (post (update_preferences (run initial_state trace_waiting) ''a''
         (Some \<lparr> pref_gender = ''female'', pref_country = ''DE'' \<rparr>))) ''a''
       = Some ((default_user ''a'')\<lparr>preferences := (Some \<lparr> pref_gender = ''female'', pref_country = ''DE'' \<rparr>)\<rparr>)
   \<and> waitingUsers (post (update_preferences (run initial_state trace_waiting) ''a''
         (Some \<lparr> pref_gender = ''female'', pref_country = ''DE'' \<rparr>)))
       = \<lparr> male = [], female = [], both = [''a''] \<rparr>
   \<and> activeUsers (post (update_preferences (run initial_state trace_waiting) ''a''
         (Some \<lparr> pref_gender = ''female'', pref_country = ''DE'' \<rparr>))) ''b''
       = Some (default_user ''b'')
   \<and> activeUsers initial_state ''a'' = None
   \<and> post (update_preferences initial_state ''a''
         (Some \<lparr> pref_gender = ''female'', pref_country = ''DE'' \<rparr>)) = initial_state"
proof -
  have a: "activeUsers (run initial_state trace_waiting) ''a'' = Some (default_user ''a'')"
    by (simp add: waiting_state)
  have b: "activeUsers (run initial_state trace_waiting) ''b'' = Some (default_user ''b'')"
    by (simp add: waiting_state)
  have w: "waitingUsers (run initial_state trace_waiting) = \<lparr> male = [], female = [], both = [''a''] \<rparr>"
    by (simp add: waiting_state)
  have n: "activeUsers initial_state ''a'' = None" by (simp add: initial_state_def)
  note f1 = update_preferences_frame[of "run initial_state trace_waiting" "''a''"
      "Some \<lparr> pref_gender = ''female'', pref_country = ''DE'' \<rparr>"]
  note f2 = update_preferences_frame[of initial_state "''a''"
      "Some \<lparr> pref_gender = ''female'', pref_country = ''DE'' \<rparr>"]
  from f1 a have 1: "activeUsers (post (update_preferences (run initial_state trace_waiting) ''a''
         (Some \<lparr> pref_gender = ''female'', pref_country = ''DE'' \<rparr>))) ''a''
       = Some ((default_user ''a'')\<lparr>preferences := (Some \<lparr> pref_gender = ''female'', pref_country = ''DE'' \<rparr>)\<rparr>)"
    by blast
  from f1 w have 2: "waitingUsers (post (update_preferences (run initial_state trace_waiting) ''a''
         (Some \<lparr> pref_gender = ''female'', pref_country = ''DE'' \<rparr>)))
       = \<lparr> male = [], female = [], both = [''a''] \<rparr>"
    by simp
  from f1 b have 3: "activeUsers (post (update_preferences (run initial_state trace_waiting) ''a''
         (Some \<lparr> pref_gender = ''female'', pref_country = ''DE'' \<rparr>))) ''b''
       = Some (default_user ''b'')"
    by simp
  from f2 n have 4: "post (update_preferences initial_state ''a''
         (Some \<lparr> pref_gender = ''female'', pref_country = ''DE'' \<rparr>)) = initial_state"
    by blast
  from a n 1 2 3 4 show ?thesis by blast
qed

subsection \<open>C9: the own gender never changes\<close>

text \<open>
  Claim C9. In every reachable state the \<open>male\<close> and \<open>female\<close> pools are empty, every
  registered session has gender \<open>both\<close>, no event changes the gender of a session that
  stays registered, and \<open>findMatch\<close> returns nothing to a seeker whose preference is
  \<open>male\<close> or \<open>female\<close>.
\<close>

theorem self_category_inert:
  assumes "reachable s"
  shows "male (waitingUsers s) = [] \<and> female (waitingUsers s) = []
     \<and> (\<forall>a u. activeUsers s a = Some u \<longrightarrow> gender u = ''both'')
     \<and> (\<forall>e a u u'. activeUsers s a = Some u \<longrightarrow> activeUsers (post (handle s e)) a = Some u'
           \<longrightarrow> gender u' = gender u)
     \<and> (\<forall>sid u wanted. activeUsers s sid = Some u \<longrightarrow> preferences u = Some wanted \<longrightarrow>
           pref_gender wanted = ''male'' \<or> pref_gender wanted = ''female''
           \<longrightarrow> findMatch s sid = Inr None)"
proof -
  have i: "inv s" by (rule reachable_inv[OF assms])
  have mf: "male (waitingUsers s) = []" "female (waitingUsers s) = []"
    using i by (simp_all add: inv_def pools_wf_def)
  have g: "\<forall>a u. activeUsers s a = Some u \<longrightarrow> gender u = ''both''"
    using i by (simp add: inv_def users_wf_def)
  have step: "gender u' = gender u"
    if u: "activeUsers s a = Some u" and u': "activeUsers (post (handle s e)) a = Some u'"
    for e a u u'
  proof (cases "admissible s e")
    case True
    then have "inv (post (handle s e))" by (rule inv_handle[OF i])
    with u' have "gender u' = ''both''" by (simp add: inv_def users_wf_def)
    with g u show ?thesis by simp
  next
    case False
    then obtain sid where e: "e = Connection sid" by (cases e) simp_all
    from u' g u show ?thesis
      by (cases "a = sid") (auto simp: e connection_def completed_def)
  qed
  have fm: "findMatch s sid = Inr None"
    if "activeUsers s sid = Some u" and "preferences u = Some wanted"
      and "pref_gender wanted = ''male'' \<or> pref_gender wanted = ''female''"
    for sid u wanted
    using that mf by (auto simp: findMatch_def Let_def)
  from mf g step fm show ?thesis by blast
qed

theorem self_category_inert_witness:
  "reachable (run initial_state trace_male_seeker)
   \<and> both (waitingUsers (run initial_state trace_male_seeker)) = [''b'']
   \<and> activeUsers (run initial_state trace_male_seeker) ''a''
       = Some ((default_user ''a'')\<lparr>preferences := Some \<lparr> pref_gender = ''male'', pref_country = ''any'' \<rparr>\<rparr>)
   \<and> findMatch (run initial_state trace_male_seeker) ''a'' = Inr None"
proof -
  have r: "reachable (run initial_state trace_male_seeker)"
    by (rule reachable_run[OF reachable_init male_seeker_admissible])
  have b: "both (waitingUsers (run initial_state trace_male_seeker)) = [''b'']"
    by (simp add: male_seeker_state)
  have a: "activeUsers (run initial_state trace_male_seeker) ''a''
       = Some ((default_user ''a'')\<lparr>preferences := Some \<lparr> pref_gender = ''male'', pref_country = ''any'' \<rparr>\<rparr>)"
    by (simp add: male_seeker_state)
  from self_category_inert[OF r] a
  have "findMatch (run initial_state trace_male_seeker) ''a'' = Inr None" by simp
  with r b a show ?thesis by blast
qed

subsection \<open>C10: pool members are registered\<close>

text \<open>
  Claim C10. In every reachable state every identifier in a waiting pool is a key of
  \<open>activeUsers\<close>; the candidate that find-peer gets from \<open>findMatch\<close> after its
  teardown block is registered in that state, so the unguarded
  \<open>match.currentPeer = socket.id\<close> never throws: find-peer never ends with the
  \<open>TypeError\<close> of that write, and whenever \<open>findMatch\<close> returns, find-peer ends without
  an exception.
\<close>

theorem pool_members_registered:
  assumes "reachable s"
  shows "(\<forall>x \<in> set (male (waitingUsers s)) \<union> set (female (waitingUsers s))
                \<union> set (both (waitingUsers s)). activeUsers s x \<noteq> None)
     \<and> (\<forall>sid usr m. activeUsers s sid = Some usr
           \<longrightarrow> findMatch (fst (find_peer_teardown s sid usr)) sid = Inr (Some m)
           \<longrightarrow> activeUsers (fst (find_peer_teardown s sid usr)) m \<noteq> None)
     \<and> (\<forall>sid. thrown (find_peer s sid) \<noteq> Some (TypeError ''currentPeer''))
     \<and> (\<forall>sid usr found. activeUsers s sid = Some usr
           \<longrightarrow> findMatch (fst (find_peer_teardown s sid usr)) sid = Inr found
           \<longrightarrow> thrown (find_peer s sid) = None)"
proof -
  have i: "inv s" by (rule reachable_inv[OF assms])
  have p: "\<forall>x \<in> set (male (waitingUsers s)) \<union> set (female (waitingUsers s))
                \<union> set (both (waitingUsers s)). activeUsers s x \<noteq> None"
    using i by (auto simp: inv_def pools_wf_def)
  have l: "activeUsers (fst (find_peer_teardown s sid usr)) m \<noteq> None"
    if u: "activeUsers s sid = Some usr"
      and f: "findMatch (fst (find_peer_teardown s sid usr)) sid = Inr (Some m)"
    for sid usr m
  proof -
    from find_peer_teardown_inv[OF i u] have "inv (fst (find_peer_teardown s sid usr))" by simp
    from inv_pool_member[OF this f] show ?thesis by auto
  qed
  have th: "thrown (find_peer s sid)
           = (case activeUsers s sid of
                None \<Rightarrow> None
              | Some usr \<Rightarrow>
                  (case findMatch (fst (find_peer_teardown s sid usr)) sid of
                     Inl e \<Rightarrow> Some e | Inr r \<Rightarrow> None))" for sid
    using find_peer_inv[OF i] by simp
  have t: "thrown (find_peer s sid) \<noteq> Some (TypeError ''currentPeer'')" for sid
    unfolding th by (auto split: option.splits sum.splits dest: findMatch_error)
  have r: "thrown (find_peer s sid) = None"
    if "activeUsers s sid = Some usr"
      and "findMatch (fst (find_peer_teardown s sid usr)) sid = Inr found"
    for sid usr found
    unfolding th using that by simp
  from p l t r show ?thesis by blast
qed

theorem pool_members_registered_witness:
  "reachable (run initial_state trace_waiting)
   \<and> both (waitingUsers (run initial_state trace_waiting)) = [''a'']
   \<and> activeUsers (run initial_state trace_waiting) ''a'' \<noteq> None
   \<and> activeUsers (run initial_state trace_waiting) ''b'' = Some (default_user ''b'')
   \<and> findMatch (fst (find_peer_teardown (run initial_state trace_waiting) ''b''
                       (default_user ''b''))) ''b'' = Inr (Some ''a'')
   \<and> activeUsers (fst (find_peer_teardown (run initial_state trace_waiting) ''b''
                       (default_user ''b''))) ''a'' \<noteq> None
   \<and> thrown (find_peer (run initial_state trace_waiting) ''b'') = None"
proof -
  have w: "both (waitingUsers (run initial_state trace_waiting)) = [''a'']"
    by (simp add: waiting_state)
  have b: "activeUsers (run initial_state trace_waiting) ''b'' = Some (default_user ''b'')"
    by (simp add: waiting_state)
  have f: "findMatch (fst (find_peer_teardown (run initial_state trace_waiting) ''b''
                       (default_user ''b''))) ''b'' = Inr (Some ''a'')"
    by (simp add: waiting_state findMatch_def find_peer_teardown_def truthy_def default_user_def)
  note c = pool_members_registered[OF waiting_reachable]
  from c w have 1: "activeUsers (run initial_state trace_waiting) ''a'' \<noteq> None" by simp
  from c b f have 2: "activeUsers (fst (find_peer_teardown (run initial_state trace_waiting) ''b''
                       (default_user ''b''))) ''a'' \<noteq> None" by blast
  from c b f have 3: "thrown (find_peer (run initial_state trace_waiting) ''b'') = None" by blast
  from waiting_reachable w b f 1 2 3 show ?thesis by blast
qed

text \<open>
  The guard is missing all the same: on a pool that holds an identifier without a session
  the handler throws at the write. And find-peer does throw in reachable states, inside
  \<open>findMatch\<close>, once a client has sent \<open>null\<close> as its preferences.
\<close>

lemma find_peer_dangling_candidate:
  "thrown (find_peer dangling_state ''a'') = Some (TypeError ''currentPeer'')"
  by (simp add: dangling_state_def default_user_def eval_defs)

lemma find_peer_null_preferences:
  "reachable (run initial_state trace_null_prefs)
   \<and> find_peer (run initial_state trace_null_prefs) ''a''
       = \<lparr> post = run initial_state trace_null_prefs, emitted = [],
           thrown = Some (TypeError ''gender'') \<rparr>"
proof -
  have "find_peer (run initial_state trace_null_prefs) ''a''
       = \<lparr> post = run initial_state trace_null_prefs, emitted = [],
           thrown = Some (TypeError ''gender'') \<rparr>"
    unfolding null_prefs_state
    by (simp add: default_user_def find_peer_def find_peer_teardown_def find_peer_match_def
        findMatch_def truthy_def)
  with null_prefs_reachable show ?thesis by blast
qed

end
